theory Spec2Isabelle
  imports Complex_Main "HOL-Library.Sublist"
begin

section \<open>Data model\<close>

text \<open>
  The notebook keeps one pandas table, \<open>calories_data\<close>, and rewrites it cell by cell.
  A table is a list of rows. The float64 columns are embedded as exact reals (rounding,
  overflow and the special values of IEEE arithmetic are outside the embedding, except for
  the undefined z-score of a constant column, which is modelled as \<open>None\<close>). The
  \<open>Gender\<close> column holds strings when loaded and integers after the replacement, so its
  entries are cells.
\<close>

datatype cell = CStr string | CInt int | CFloat real | CBool bool

record base_row =
  Gender :: cell
  Age :: int
  Height :: real
  Weight :: real
  Duration :: real
  Heart_Rate :: real
  Body_Temp :: real
  Calories :: real

record joined_row = base_row +
  User_ID :: int

record derived_row = base_row +
  BMI :: real
  Age_Group :: "nat option"
  Age_x_Duration :: real
  Weight_x_Duration :: real
  HeartRate_x_BodyTemp :: real

section \<open>Feature engineering (third notebook cell)\<close>

text \<open>
  \<open>calories_data.replace({"Gender": {'male': 0, 'female': 1}}, inplace=True)\<close>:
  a value that is a key of the dictionary is replaced by its entry, any other value is
  kept as it is.
\<close>

definition gender_dict :: "(cell \<times> cell) list" where
  "gender_dict = [(CStr ''male'', CInt 0), (CStr ''female'', CInt 1)]"

definition replace_value :: "(cell \<times> cell) list \<Rightarrow> cell \<Rightarrow> cell" where
  "replace_value d c = (case map_of d c of Some v \<Rightarrow> v | None \<Rightarrow> c)"

text \<open>
  \<open>pd.cut(x, bins, labels)\<close> with its defaults \<open>right=True\<close>,
  \<open>include_lowest=False\<close>: the position of \<open>x\<close> among the sorted bin edges is
  \<open>searchsorted(bins, x, side='left')\<close>; position 0 (at or below the first edge) and
  position \<open>len(bins)\<close> (above the last edge) give the missing category, any other
  position \<open>i\<close> gives \<open>labels[i - 1]\<close>.
\<close>

definition searchsorted_left :: "int list \<Rightarrow> int \<Rightarrow> nat" where
  "searchsorted_left bins x = length (takeWhile (\<lambda>b. b < x) bins)"

definition cut :: "int list \<Rightarrow> nat list \<Rightarrow> int \<Rightarrow> nat option" where
  "cut bins labels x =
     (let ids = searchsorted_left bins x
      in if ids = length bins \<or> ids = 0 then None else Some (labels ! (ids - 1)))"

definition age_bins :: "int list" where
  "age_bins = [0, 18, 35, 50, 80]"

definition age_labels :: "nat list" where
  "age_labels = [0, 1, 2, 3]"

definition bmi :: "real \<Rightarrow> real \<Rightarrow> real" where
  "bmi height weight = (let Height_m = height / 100 in weight / (Height_m ^ 2))"

text \<open>One row through the whole cell: replace, drop \<open>User_ID\<close>, add the derived columns.\<close>

definition derive :: "joined_row \<Rightarrow> derived_row" where
  "derive r =
     \<lparr> Gender = replace_value gender_dict (Gender r),
       Age = Age r,
       Height = Height r,
       Weight = Weight r,
       Duration = Duration r,
       Heart_Rate = Heart_Rate r,
       Body_Temp = Body_Temp r,
       Calories = Calories r,
       BMI = bmi (Height r) (Weight r),
       Age_Group = cut age_bins age_labels (Age r),
       Age_x_Duration = of_int (Age r) * Duration r,
       Weight_x_Duration = Weight r * Duration r,
       HeartRate_x_BodyTemp = Heart_Rate r * Body_Temp r \<rparr>"

definition feature_engineer :: "joined_row list \<Rightarrow> derived_row list" where
  "feature_engineer t = map derive t"

section \<open>Feature matrix (fifth notebook cell)\<close>

text \<open>
  \<open>pd.get_dummies(X, columns=['Age_Group'], drop_first=True)\<close>: one indicator per
  category of the categorical column, the first one dropped; a missing value has no
  indicator set.
\<close>

definition get_dummies :: "nat list \<Rightarrow> bool \<Rightarrow> nat option \<Rightarrow> bool list" where
  "get_dummies categories drop_first g =
     (let ds = map (\<lambda>c. g = Some c) categories in if drop_first then tl ds else ds)"

definition feature_row :: "derived_row \<Rightarrow> cell list" where
  "feature_row r =
     [Gender r, CInt (Age r), CFloat (Height r), CFloat (Weight r), CFloat (Duration r),
      CFloat (Heart_Rate r), CFloat (Body_Temp r), CFloat (BMI r),
      CFloat (Age_x_Duration r), CFloat (Weight_x_Duration r),
      CFloat (HeartRate_x_BodyTemp r)]
     @ map CBool (get_dummies age_labels True (Age_Group r))"

definition feature_matrix :: "derived_row list \<Rightarrow> cell list list" where
  "feature_matrix t = map feature_row t"

definition target :: "derived_row list \<Rightarrow> real list" where
  "target t = map Calories t"


section \<open>Outlier filter (fourth notebook cell)\<close>

text \<open>
  \<open>calories_data.select_dtypes(include=[np.number])\<close> keeps the columns of integer or
  float dtype, in table order. \<open>Age_Group\<close> is categorical and never numeric; the
  eleven columns \<open>Age\<close>, \<open>Height\<close>, \<open>Weight\<close>, \<open>Duration\<close>, \<open>Heart_Rate\<close>,
  \<open>Body_Temp\<close>, \<open>Calories\<close>, \<open>BMI\<close> and the three products always are.

  The dtype of \<open>Gender\<close> belongs to the column, not to its entries, and depends on the
  pandas version. A column loaded with an integer or float dtype holds no key of the
  dictionary and keeps its dtype through the replacement. A column loaded as strings has
  the object dtype; pandas before 3.0 infers the dtype again after the replacement, so
  that a column left with numbers only becomes numeric, and pandas from 3.0 on keeps the
  object dtype. \<open>infer_objects\<close> stands for this choice of the library. Selecting rows
  with a mask keeps the dtype, so the filter takes it as an argument,
  \<open>gender_numeric\<close>. A numeric column holds numbers only.
\<close>

definition is_int :: "cell \<Rightarrow> bool" where
  "is_int c = (case c of CInt _ \<Rightarrow> True | _ \<Rightarrow> False)"

definition is_number :: "cell \<Rightarrow> bool" where
  "is_number c = (case c of CInt _ \<Rightarrow> True | CFloat _ \<Rightarrow> True | _ \<Rightarrow> False)"

definition gender_is_numeric :: "bool \<Rightarrow> joined_row list \<Rightarrow> bool" where
  "gender_is_numeric infer_objects loaded =
     (list_all (\<lambda>r. is_number (Gender r)) loaded
      \<or> (infer_objects
          \<and> list_all (\<lambda>r. is_number (replace_value gender_dict (Gender r))) loaded))"

text \<open>The number a cell holds; read only on columns that hold numbers.\<close>

definition cell_value :: "cell \<Rightarrow> real" where
  "cell_value c =
     (case c of CInt i \<Rightarrow> of_int i | CFloat x \<Rightarrow> x | CBool b \<Rightarrow> of_bool b | CStr _ \<Rightarrow> 0)"

definition numeric_fields :: "bool \<Rightarrow> derived_row list \<Rightarrow> (derived_row \<Rightarrow> real) list" where
  "numeric_fields gender_numeric t =
     (if gender_numeric \<and> list_all (\<lambda>r. is_number (Gender r)) t
      then [\<lambda>r. cell_value (Gender r)] else [])
     @ [\<lambda>r. of_int (Age r), Height, Weight, Duration, Heart_Rate, Body_Temp, Calories, BMI,
        Age_x_Duration, Weight_x_Duration, HeartRate_x_BodyTemp]"

definition select_dtypes_number :: "bool \<Rightarrow> derived_row list \<Rightarrow> real list list" where
  "select_dtypes_number gender_numeric t = map (\<lambda>f. map f t) (numeric_fields gender_numeric t)"

text \<open>
  numpy's \<open>mean\<close>, \<open>var\<close> and \<open>std\<close> of one column with \<open>ddof=0\<close>:
  \<open>var = mean(abs(x - x.mean())**2)\<close>, \<open>std = sqrt(var)\<close>.
\<close>

definition np_mean :: "real list \<Rightarrow> real" where
  "np_mean xs = sum_list xs / real (length xs)"

definition np_var :: "real list \<Rightarrow> real" where
  "np_var xs = np_mean (map (\<lambda>x. \<bar>x - np_mean xs\<bar> ^ 2) xs)"

definition np_std :: "real list \<Rightarrow> real" where
  "np_std xs = sqrt (np_var xs)"

text \<open>
  \<open>scipy.stats.zscore(a)\<close> with its defaults \<open>axis=0\<close>, \<open>ddof=0\<close>, column by
  column: the mean and the standard deviation are taken over the whole column; a column
  whose entries all equal its first entry is constant, its standard deviation is set to 1
  for the division and its scores are then set to NaN, here \<open>None\<close>.
\<close>

definition isconst :: "real list \<Rightarrow> bool" where
  "isconst a = list_all (\<lambda>x. hd a = x) a"

definition zscore_col :: "real list \<Rightarrow> real option list" where
  "zscore_col a =
     (let mn = np_mean a;
          std = (if isconst a then 1 else np_std a);
          z = map (\<lambda>x. (x - mn) / std) a
      in if isconst a then map (\<lambda>_. None) z else map Some z)"

definition zscore :: "real list list \<Rightarrow> real option list list" where
  "zscore cols = map zscore_col cols"

text \<open>\<open>np.abs\<close> keeps NaN; a comparison with NaN is false.\<close>

definition np_abs :: "real option \<Rightarrow> real option" where
  "np_abs z = map_option abs z"

definition lt :: "real \<Rightarrow> real option \<Rightarrow> bool" where
  "lt bound z = (case z of None \<Rightarrow> False | Some v \<Rightarrow> v < bound)"

text \<open>\<open>.all(axis=1)\<close> on a frame of \<open>n\<close> rows: one truth value per row.\<close>

definition all_axis1 :: "nat \<Rightarrow> bool list list \<Rightarrow> bool list" where
  "all_axis1 n cols = map (\<lambda>i. list_all (\<lambda>c. c ! i) cols) [0..<n]"

text \<open>Indexing a table with a boolean mask keeps the rows at the true positions.\<close>

definition mask_rows :: "'a list \<Rightarrow> bool list \<Rightarrow> 'a list" where
  "mask_rows t flags = map fst (filter snd (zip t flags))"

definition outlier_filter :: "bool \<Rightarrow> derived_row list \<Rightarrow> derived_row list" where
  "outlier_filter gender_numeric calories_data =
     (let z_scores =
        map (map np_abs) (zscore (select_dtypes_number gender_numeric calories_data))
      in mask_rows calories_data
           (all_axis1 (length calories_data) (map (map (lt 3)) z_scores)))"

text \<open>
  The test on one entry as the specification words it, with nothing taken from the
  definitions above: the column mean is the sum of the column over its length, the column
  standard deviation is the square root of the mean squared deviation from that mean, and
  the z-score of the entry, its value minus the mean divided by the standard deviation,
  is defined and has an absolute value below the bound.
\<close>

definition zscore_below :: "real \<Rightarrow> real list \<Rightarrow> real \<Rightarrow> bool" where
  "zscore_below bound column x \<longleftrightarrow>
     (let n = real (length column);
          mean = sum_list column / n;
          deviation = sqrt (sum_list (map (\<lambda>v. (v - mean) ^ 2) column) / n)
      in deviation \<noteq> 0 \<and> \<bar>(x - mean) / deviation\<bar> < bound)"


section \<open>Example tables\<close>

text \<open>
  Two kinds of exercise session, used to build small input tables: a shorter session of a
  20 year old man and a longer one of a 30 year old woman. The calories label and the user
  id are left open.
\<close>

definition session_a :: "real \<Rightarrow> int \<Rightarrow> joined_row" where
  "session_a cal uid =
     \<lparr> Gender = CStr ''male'', Age = 20, Height = 200, Weight = 80, Duration = 10,
       Heart_Rate = 100, Body_Temp = 40, Calories = cal, User_ID = uid \<rparr>"

definition session_b :: "real \<Rightarrow> int \<Rightarrow> joined_row" where
  "session_b cal uid =
     \<lparr> Gender = CStr ''female'', Age = 30, Height = 160, Weight = 64, Duration = 20,
       Heart_Rate = 110, Body_Temp = 41, Calories = cal, User_ID = uid \<rparr>"

text \<open>
  Twelve sessions: ten with 100 calories, one with 110 and one with 1100.
\<close>

definition twelve_sessions :: "joined_row list" where
  "twelve_sessions =
     [session_a 100 1, session_b 100 2, session_a 100 3, session_b 100 4,
      session_a 100 5, session_b 100 6, session_a 100 7, session_b 100 8,
      session_a 100 9, session_b 100 10, session_a 110 11, session_b 1100 12]"

text \<open>Two sessions with the same calories label, and two with different labels.\<close>

definition equal_calories :: "joined_row list" where
  "equal_calories = [session_a 100 1, session_b 100 2]"

definition two_sessions :: "joined_row list" where
  "two_sessions = [session_a 100 1, session_b 120 2]"

text \<open>Ten sessions with calories 10, 20, ..., 100.\<close>

definition ten_sessions :: "joined_row list" where
  "ten_sessions =
     [session_a 10 1, session_b 20 2, session_a 30 3, session_b 40 4, session_a 50 5,
      session_b 60 6, session_a 70 7, session_b 80 8, session_a 90 9, session_b 100 10]"


section \<open>Splitter (fifth notebook cell, last line)\<close>

datatype error = ValueError | NotFittedError

text \<open>
  \<open>train_test_split(X, Y, test_size=0.2, random_state=2)\<close> computes
  \<open>n_test = ceil(test_size * n_samples)\<close> in float64 and \<open>n_train = n_samples - n_test\<close>.
  The float64 nearest to 0.2 is \<open>3602879701896397 / 2^54\<close>. The product with the
  row count is the exact product rounded to 53 significant bits, ties to even; the row
  count itself is exact in float64 as long as it is below \<open>2^53\<close>.
\<close>

fun bit_length :: "nat \<Rightarrow> nat" where
  "bit_length n = (if n = 0 then 0 else Suc (bit_length (n div 2)))"

declare bit_length.simps [simp del]

definition round53 :: "nat \<Rightarrow> nat" where
  "round53 p =
     (let s = bit_length p - 53;
          q = p div 2 ^ s;
          r = p mod 2 ^ s
      in (if 2 ^ s < 2 * r \<or> (2 * r = 2 ^ s \<and> odd q) then q + 1 else q) * 2 ^ s)"

definition test_size_numerator :: nat where
  "test_size_numerator = 3602879701896397"

definition n_test_of :: "nat \<Rightarrow> nat" where
  "n_test_of n_samples = (round53 (n_samples * test_size_numerator) + (2 ^ 54 - 1)) div 2 ^ 54"

text \<open>
  The generator is numpy's Mersenne Twister, which is not part of the notebook. It enters
  as two parameters over a type \<open>'s\<close> of generator states: \<open>RandomState seed\<close> is
  the state of a fresh generator, and \<open>permutation s n\<close> returns a shuffled
  \<open>range(n)\<close> together with the advanced state. \<open>check_random_state\<close> makes a fresh
  generator for an integer seed and takes the process-wide generator for \<open>None\<close>.
  The process-wide state is threaded through the call.
\<close>

definition check_random_state :: "(nat \<Rightarrow> 's) \<Rightarrow> nat option \<Rightarrow> 's \<Rightarrow> 's" where
  "check_random_state RandomState random_state global =
     (case random_state of None \<Rightarrow> global | Some seed \<Rightarrow> RandomState seed)"

text \<open>
  \<open>ShuffleSplit\<close>: the first \<open>n_test\<close> entries of the permutation are the test
  indices, the next \<open>n_train\<close> entries the training indices.
\<close>

definition split_indices :: "nat list \<Rightarrow> nat \<Rightarrow> nat \<Rightarrow> nat list \<times> nat list" where
  "split_indices perm n_test n_train = (take n_train (drop n_test perm), take n_test perm)"

definition train_test_split ::
  "(nat \<Rightarrow> 's) \<Rightarrow> ('s \<Rightarrow> nat \<Rightarrow> nat list \<times> 's) \<Rightarrow> 'a list \<Rightarrow> 'b list \<Rightarrow> nat option \<Rightarrow> 's
     \<Rightarrow> error + (('a list \<times> 'a list \<times> 'b list \<times> 'b list) \<times> 's)" where
  "train_test_split RandomState permutation X Y random_state global =
     (let n_samples = length X
      in if length Y \<noteq> n_samples \<or> n_samples = 0 then Inl ValueError
         else
           let n_test = n_test_of n_samples;
               n_train = n_samples - n_test
           in if n_train = 0 then Inl ValueError
              else
                let rng = check_random_state RandomState random_state global;
                    (perm, rng') = permutation rng n_samples;
                    (train, test) = split_indices perm n_test n_train
                in Inr ((map (nth X) train, map (nth X) test,
                         map (nth Y) train, map (nth Y) test),
                        (case random_state of None \<Rightarrow> rng' | Some _ \<Rightarrow> global)))"

section \<open>Training pipeline (sixth notebook cell)\<close>

text \<open>
  The random forest (\<open>RandomForestRegressor(n_estimators=100, random_state=42)\<close>) is
  library code with a fixed seed. It enters as two parameters over a type \<open>'m\<close> of
  trained forests: \<open>rf_fit X y\<close> trains on a matrix and its labels, \<open>rf_predict m x\<close>
  predicts one row. A pipeline object is unfitted, or holds the scaler's \<open>mean_\<close> and
  \<open>scale_\<close> and the trained forest. Objects live in a heap, addressed by position:
  \<open>fit\<close> overwrites the object, \<open>clone\<close> makes a new unfitted one.
\<close>

datatype 'm pipeline = Unfit | Fit "real list" "real list" 'm

type_synonym 'm heap = "'m pipeline list"

text \<open>sklearn turns the feature frame into a float matrix; a string makes it fail.\<close>

definition to_float :: "cell \<Rightarrow> error + real" where
  "to_float c =
     (case c of CStr _ \<Rightarrow> Inl ValueError | CInt i \<Rightarrow> Inr (of_int i)
        | CFloat x \<Rightarrow> Inr x | CBool b \<Rightarrow> Inr (of_bool b))"

fun collect :: "(error + 'a) list \<Rightarrow> error + 'a list" where
  "collect [] = Inr []"
| "collect (Inl e # _) = Inl e"
| "collect (Inr x # rest) = (case collect rest of Inl e \<Rightarrow> Inl e | Inr xs \<Rightarrow> Inr (x # xs))"

definition check_array :: "cell list list \<Rightarrow> error + real list list" where
  "check_array X = collect (map (\<lambda>row. collect (map to_float row)) X)"

text \<open>
  \<open>StandardScaler\<close>: per column the mean and the standard deviation (\<open>ddof=0\<close>), a
  zero standard deviation replaced by 1; \<open>transform\<close> subtracts the stored mean and
  divides by the stored scale.
\<close>

definition columns :: "real list list \<Rightarrow> real list list" where
  "columns X = map (\<lambda>j. map (\<lambda>row. row ! j) X) [0..<length (hd X)]"

definition handle_zeros_in_scale :: "real \<Rightarrow> real" where
  "handle_zeros_in_scale s = (if s = 0 then 1 else s)"

definition scaler_transform :: "real list \<Rightarrow> real list \<Rightarrow> real list list \<Rightarrow> real list list" where
  "scaler_transform means scales X =
     map (\<lambda>row. map (\<lambda>(x, m, s). (x - m) / s) (zip row (zip means scales))) X"

definition fit_pipeline ::
  "(real list list \<Rightarrow> real list \<Rightarrow> 'm) \<Rightarrow> real list list \<Rightarrow> real list \<Rightarrow> error + 'm pipeline" where
  "fit_pipeline rf_fit X y =
     (if X = [] \<or> length y \<noteq> length X then Inl ValueError
      else
        let means = map np_mean (columns X);
            scales = map (\<lambda>c. handle_zeros_in_scale (np_std c)) (columns X);
            Xt = scaler_transform means scales X
        in Inr (Fit means scales (rf_fit Xt y)))"

definition predict_pipeline ::
  "('m \<Rightarrow> real list \<Rightarrow> real) \<Rightarrow> 'm pipeline \<Rightarrow> real list list \<Rightarrow> error + real list" where
  "predict_pipeline rf_predict p X =
     (case p of
        Unfit \<Rightarrow> Inl NotFittedError
      | Fit means scales model \<Rightarrow>
          if X = [] then Inl ValueError
          else Inr (map (rf_predict model) (scaler_transform means scales X)))"

text \<open>The two operations on a pipeline object in the heap.\<close>

definition pipeline_fit ::
  "(real list list \<Rightarrow> real list \<Rightarrow> 'm) \<Rightarrow> 'm heap \<Rightarrow> nat \<Rightarrow> real list list \<Rightarrow> real list
     \<Rightarrow> error + 'm heap" where
  "pipeline_fit rf_fit h obj X y =
     (case fit_pipeline rf_fit X y of Inl e \<Rightarrow> Inl e | Inr p \<Rightarrow> Inr (h[obj := p]))"

definition clone :: "'m heap \<Rightarrow> nat \<Rightarrow> nat \<times> 'm heap" where
  "clone h obj = (length h, h @ [Unfit])"

text \<open>
  \<open>r2_score(y_true, y_pred)\<close>: NaN (here \<open>None\<close>) with fewer than two samples;
  otherwise 1 when the residual sum of squares is 0, the formula when both sums are
  non-zero, and 0 when only the total sum of squares is 0.
\<close>

definition r2_score :: "real list \<Rightarrow> real list \<Rightarrow> real option" where
  "r2_score y_true y_pred =
     (if length y_pred < 2 then None
      else
        let numerator = sum_list (map (\<lambda>(t, p). (t - p) ^ 2) (zip y_true y_pred));
            denominator = sum_list (map (\<lambda>t. (t - np_mean y_true) ^ 2) y_true)
        in Some (if numerator = 0 then 1
                 else if denominator \<noteq> 0 then 1 - numerator / denominator
                 else 0))"

text \<open>
  \<open>KFold(n_splits)\<close> without shuffling: the first \<open>n mod n_splits\<close> folds have
  \<open>n div n_splits + 1\<close> rows, the others \<open>n div n_splits\<close>; the test folds are
  consecutive index ranges and each training set is the rest of the indices.
\<close>

definition fold_sizes :: "nat \<Rightarrow> nat \<Rightarrow> nat list" where
  "fold_sizes n n_splits =
     map (\<lambda>i. n div n_splits + (if i < n mod n_splits then 1 else 0)) [0..<n_splits]"

fun test_folds :: "nat \<Rightarrow> nat list \<Rightarrow> nat list list" where
  "test_folds current [] = []"
| "test_folds current (fold_size # rest) =
     [current..<current + fold_size] # test_folds (current + fold_size) rest"

definition kfold :: "nat \<Rightarrow> nat \<Rightarrow> (nat list \<times> nat list) list" where
  "kfold n n_splits =
     map (\<lambda>test. (filter (\<lambda>i. i \<notin> set test) [0..<n], test))
       (test_folds 0 (fold_sizes n n_splits))"

text \<open>
  \<open>cross_val_score(estimator, X, y, cv, scoring='r2')\<close>: for every fold a clone of the
  estimator is fitted on the training rows and scored on the test rows; a failed fit
  scores NaN (\<open>error_score=np.nan\<close>).
\<close>

definition fit_and_score ::
  "(real list list \<Rightarrow> real list \<Rightarrow> 'm) \<Rightarrow> ('m \<Rightarrow> real list \<Rightarrow> real) \<Rightarrow> 'm heap \<Rightarrow> nat
     \<Rightarrow> real list list \<Rightarrow> real list \<Rightarrow> nat list \<Rightarrow> nat list \<Rightarrow> real option \<times> 'm heap" where
  "fit_and_score rf_fit rf_predict h est X y train test =
     (case pipeline_fit rf_fit h est (map (nth X) train) (map (nth y) train) of
        Inl e \<Rightarrow> (None, h)
      | Inr h' \<Rightarrow>
          (case predict_pipeline rf_predict (h' ! est) (map (nth X) test) of
             Inl e \<Rightarrow> (None, h')
           | Inr y_pred \<Rightarrow> (r2_score (map (nth y) test) y_pred, h')))"

fun cv_loop ::
  "(real list list \<Rightarrow> real list \<Rightarrow> 'm) \<Rightarrow> ('m \<Rightarrow> real list \<Rightarrow> real) \<Rightarrow> 'm heap \<Rightarrow> nat
     \<Rightarrow> real list list \<Rightarrow> real list \<Rightarrow> (nat list \<times> nat list) list
     \<Rightarrow> real option list \<times> 'm heap" where
  "cv_loop rf_fit rf_predict h estimator X y [] = ([], h)"
| "cv_loop rf_fit rf_predict h estimator X y ((train, test) # folds) =
     (let (est, h1) = clone h estimator;
          (score, h2) = fit_and_score rf_fit rf_predict h1 est X y train test;
          (scores, h3) = cv_loop rf_fit rf_predict h2 estimator X y folds
      in (score # scores, h3))"

definition cross_val_score ::
  "(real list list \<Rightarrow> real list \<Rightarrow> 'm) \<Rightarrow> ('m \<Rightarrow> real list \<Rightarrow> real) \<Rightarrow> 'm heap \<Rightarrow> nat
     \<Rightarrow> real list list \<Rightarrow> real list \<Rightarrow> nat \<Rightarrow> error + (real option list \<times> 'm heap)" where
  "cross_val_score rf_fit rf_predict h estimator X y cv =
     (if length y \<noteq> length X \<or> cv < 2 \<or> length X < cv then Inl ValueError
      else Inr (cv_loop rf_fit rf_predict h estimator X y (kfold (length X) cv)))"

text \<open>\<open>np.mean\<close> of scores: NaN as soon as one score is NaN.\<close>

definition nan_mean :: "real option list \<Rightarrow> real option" where
  "nan_mean scores =
     (if list_all (\<lambda>s. s \<noteq> None) scores then Some (np_mean (map the scores)) else None)"

text \<open>
  The sixth cell: make the pipeline, cross-validate on \<open>X, Y\<close>, print the scores and
  their mean, fit the pipeline on \<open>X_train, Y_train\<close>.
\<close>

definition training_cell ::
  "(real list list \<Rightarrow> real list \<Rightarrow> 'm) \<Rightarrow> ('m \<Rightarrow> real list \<Rightarrow> real) \<Rightarrow> 'm heap
     \<Rightarrow> real list list \<Rightarrow> real list \<Rightarrow> real list list \<Rightarrow> real list
     \<Rightarrow> error + (real option list \<times> real option \<times> nat \<times> 'm heap)" where
  "training_cell rf_fit rf_predict h X Y X_train Y_train =
     (let pipeline = length h;
          h0 = h @ [Unfit]
      in case cross_val_score rf_fit rf_predict h0 pipeline X Y 5 of
           Inl e \<Rightarrow> Inl e
         | Inr (cv_scores, h1) \<Rightarrow>
             (case pipeline_fit rf_fit h1 pipeline X_train Y_train of
                Inl e \<Rightarrow> Inl e
              | Inr h2 \<Rightarrow> Inr (cv_scores, nan_mean cv_scores, pipeline, h2)))"

section \<open>Evaluator (seventh notebook cell)\<close>

definition mean_absolute_error :: "real list \<Rightarrow> real list \<Rightarrow> real" where
  "mean_absolute_error y_true y_pred = np_mean (map (\<lambda>(t, p). \<bar>p - t\<bar>) (zip y_true y_pred))"

definition mean_squared_error :: "real list \<Rightarrow> real list \<Rightarrow> real" where
  "mean_squared_error y_true y_pred = np_mean (map (\<lambda>(t, p). (t - p) ^ 2) (zip y_true y_pred))"

record metrics =
  predictions :: "real list"
  mae :: real
  mse :: real
  rmse :: real
  r2 :: "real option"

definition evaluation_cell ::
  "('m \<Rightarrow> real list \<Rightarrow> real) \<Rightarrow> 'm heap \<Rightarrow> nat \<Rightarrow> real list list \<Rightarrow> real list
     \<Rightarrow> error + metrics" where
  "evaluation_cell rf_predict h pipeline X_test Y_test =
     (case predict_pipeline rf_predict (h ! pipeline) X_test of
        Inl e \<Rightarrow> Inl e
      | Inr y_pred \<Rightarrow>
          if length Y_test \<noteq> length y_pred then Inl ValueError
          else
            let m = mean_squared_error Y_test y_pred
            in Inr \<lparr> predictions = y_pred,
                     mae = mean_absolute_error Y_test y_pred,
                     mse = m,
                     rmse = sqrt m,
                     r2 = r2_score Y_test y_pred \<rparr>)"

section \<open>Cross-validation as the specification words it\<close>

text \<open>
  The score of one fold, without any heap: a fresh pipeline is trained on the training
  rows only (scaler statistics and forest) and its coefficient of determination is taken
  on the held-out rows. \<open>fold_scores\<close> lists it for the folds of \<open>KFold\<close>.
\<close>

definition fold_score ::
  "(real list list \<Rightarrow> real list \<Rightarrow> 'm) \<Rightarrow> ('m \<Rightarrow> real list \<Rightarrow> real)
     \<Rightarrow> real list list \<Rightarrow> real list \<Rightarrow> nat list \<Rightarrow> nat list \<Rightarrow> real option" where
  "fold_score rf_fit rf_predict X y train test =
     (let X_fit = map (nth X) train;
          y_fit = map (nth y) train;
          means = map np_mean (columns X_fit);
          scales = map (\<lambda>c. handle_zeros_in_scale (np_std c)) (columns X_fit);
          model = rf_fit (scaler_transform means scales X_fit) y_fit;
          y_pred = map (rf_predict model) (scaler_transform means scales (map (nth X) test))
      in r2_score (map (nth y) test) y_pred)"

definition fold_scores ::
  "(real list list \<Rightarrow> real list \<Rightarrow> 'm) \<Rightarrow> ('m \<Rightarrow> real list \<Rightarrow> real)
     \<Rightarrow> real list list \<Rightarrow> real list \<Rightarrow> nat \<Rightarrow> real option list" where
  "fold_scores rf_fit rf_predict X y n_splits =
     map (\<lambda>(train, test). fold_score rf_fit rf_predict X y train test)
       (kfold (length X) n_splits)"

section \<open>The cells from the feature matrix to the metrics\<close>

text \<open>
  Cells five to seven in order, on the table that the outlier filter returned: build
  \<open>X\<close> and \<open>Y\<close>, split them with seed 2, cross-validate on \<open>X, Y\<close> and fit on
  the training part, evaluate on the holdout part. \<open>notebook\<close> runs the feature
  engineering and the outlier filter first, on the loaded table and for the library's
  choice \<open>infer_objects\<close> of the dtype of the gender column.
\<close>

definition modelling_cells ::
  "(nat \<Rightarrow> 's) \<Rightarrow> ('s \<Rightarrow> nat \<Rightarrow> nat list \<times> 's)
     \<Rightarrow> (real list list \<Rightarrow> real list \<Rightarrow> 'm) \<Rightarrow> ('m \<Rightarrow> real list \<Rightarrow> real)
     \<Rightarrow> 's \<Rightarrow> 'm heap \<Rightarrow> derived_row list
     \<Rightarrow> error + (real option list \<times> real option \<times> metrics \<times> 'm heap \<times> 's)" where
  "modelling_cells RandomState permutation rf_fit rf_predict global h calories_data =
     (let X = feature_matrix calories_data;
          Y = target calories_data
      in case train_test_split RandomState permutation X Y (Some 2) global of
           Inl e \<Rightarrow> Inl e
         | Inr ((X_train, X_test, Y_train, Y_test), global') \<Rightarrow>
             (case check_array X of
                Inl e \<Rightarrow> Inl e
              | Inr X_full \<Rightarrow>
                  (case check_array X_train of
                     Inl e \<Rightarrow> Inl e
                   | Inr X_fit \<Rightarrow>
                       (case training_cell rf_fit rf_predict h X_full Y X_fit Y_train of
                          Inl e \<Rightarrow> Inl e
                        | Inr (cv_scores, cv_mean, pipeline, h') \<Rightarrow>
                            (case check_array X_test of
                               Inl e \<Rightarrow> Inl e
                             | Inr X_holdout \<Rightarrow>
                                 (case evaluation_cell rf_predict h' pipeline X_holdout Y_test of
                                    Inl e \<Rightarrow> Inl e
                                  | Inr m \<Rightarrow> Inr (cv_scores, cv_mean, m, h', global')))))))"

definition notebook ::
  "(nat \<Rightarrow> 's) \<Rightarrow> ('s \<Rightarrow> nat \<Rightarrow> nat list \<times> 's)
     \<Rightarrow> (real list list \<Rightarrow> real list \<Rightarrow> 'm) \<Rightarrow> ('m \<Rightarrow> real list \<Rightarrow> real)
     \<Rightarrow> bool \<Rightarrow> 's \<Rightarrow> 'm heap \<Rightarrow> joined_row list
     \<Rightarrow> error + (real option list \<times> real option \<times> metrics \<times> 'm heap \<times> 's)" where
  "notebook RandomState permutation rf_fit rf_predict infer_objects global h calories_data =
     modelling_cells RandomState permutation rf_fit rf_predict global h
       (outlier_filter (gender_is_numeric infer_objects calories_data)
          (feature_engineer calories_data))"


section \<open>Properties of the feature engineering\<close>

lemma searchsorted_left_age:
  "searchsorted_left age_bins a =
     (if a \<le> 0 then 0 else if a \<le> 18 then 1 else if a \<le> 35 then 2
      else if a \<le> 50 then 3 else if a \<le> 80 then 4 else 5)"
  by (simp add: searchsorted_left_def age_bins_def)

lemma age_group_cases:
  "cut age_bins age_labels a =
     (if a \<le> 0 \<or> 80 < a then None
      else if a \<le> 18 then Some 0 else if a \<le> 35 then Some 1
      else if a \<le> 50 then Some 2 else Some 3)"
  by (simp add: cut_def searchsorted_left_age) (simp add: age_bins_def age_labels_def)

text \<open>
  C1. For a row with height > 0 and weight > 0 the feature engineer stores
  BMI = weight / (height / 100) squared, that is the weight divided by the square of the
  height in metres, and this value is > 0.
\<close>

theorem bmi_formula_positive:
  assumes "0 < Height r" and "0 < Weight r"
  shows "BMI (derive r) = Weight r / (Height r / 100) ^ 2 \<and> 0 < BMI (derive r)"
  using assms by (simp add: derive_def bmi_def)

theorem bmi_formula_positive_witness:
  "BMI (derive \<lparr> Gender = CStr ''male'', Age = 30, Height = 200, Weight = 80,
                  Duration = 10, Heart_Rate = 100, Body_Temp = 40, Calories = 50,
                  User_ID = 1 \<rparr>) = 20"
  using bmi_formula_positive [of "\<lparr> Gender = CStr ''male'', Age = 30, Height = 200,
                  Weight = 80, Duration = 10, Heart_Rate = 100, Body_Temp = 40,
                  Calories = 50, User_ID = 1 \<rparr>"]
  by simp

text \<open>
  C2. The age bucket comes from the right-closed bins (0,18], (18,35], (35,50], (50,80]
  with labels 0, 1, 2, 3: every age from 1 to 80 gets exactly one bucket, the one of the
  bin it lies in, and every age below 0 or above 80 gets the missing bucket.
\<close>

theorem age_group_bins:
  "(1 \<le> a \<and> a \<le> 80 \<longrightarrow> (\<exists>!b. cut age_bins age_labels a = Some b \<and> b \<in> {0, 1, 2, 3}))
   \<and> (0 < a \<and> a \<le> 18 \<longrightarrow> cut age_bins age_labels a = Some 0)
   \<and> (18 < a \<and> a \<le> 35 \<longrightarrow> cut age_bins age_labels a = Some 1)
   \<and> (35 < a \<and> a \<le> 50 \<longrightarrow> cut age_bins age_labels a = Some 2)
   \<and> (50 < a \<and> a \<le> 80 \<longrightarrow> cut age_bins age_labels a = Some 3)
   \<and> (a < 0 \<or> 80 < a \<longrightarrow> cut age_bins age_labels a = None)"
  by (auto simp: age_group_cases)

theorem age_group_bins_witness:
  "cut age_bins age_labels 18 = Some 0 \<and> cut age_bins age_labels 19 = Some 1
   \<and> cut age_bins age_labels 50 = Some 2 \<and> cut age_bins age_labels 80 = Some 3
   \<and> cut age_bins age_labels 81 = None \<and> cut age_bins age_labels (- 1) = None
   \<and> (\<exists>!b. cut age_bins age_labels 1 = Some b \<and> b \<in> {0, 1, 2, 3})"
proof -
  have "cut age_bins age_labels 18 = Some 0" using age_group_bins [of 18] by simp
  moreover have "cut age_bins age_labels 19 = Some 1" using age_group_bins [of 19] by simp
  moreover have "cut age_bins age_labels 50 = Some 2" using age_group_bins [of 50] by simp
  moreover have "cut age_bins age_labels 80 = Some 3" using age_group_bins [of 80] by simp
  moreover have "cut age_bins age_labels 81 = None" using age_group_bins [of 81] by simp
  moreover have "cut age_bins age_labels (- 1) = None"
    using age_group_bins [of "- 1"] by simp
  moreover have "\<exists>!b. cut age_bins age_labels 1 = Some b \<and> b \<in> {0, 1, 2, 3}"
  proof -
    have h: "(1::int) \<le> 1 \<and> (1::int) \<le> 80" by simp
    from age_group_bins [of 1, THEN conjunct1, THEN mp, OF h] show ?thesis .
  qed
  ultimately show ?thesis by blast
qed

text \<open>
  C9. A row whose age is outside (0, 80] is kept by the feature engineer with the missing
  age bucket, and its three age-group indicator columns in the feature matrix are all 0,
  the same indicators as those of a row in the bucket (0,18].
\<close>

theorem missing_age_group_indicators:
  assumes "Age r \<le> 0 \<or> 80 < Age r" and "0 < Age r'" and "Age r' \<le> 18"
  shows "feature_engineer [r] = [derive r]
    \<and> Age_Group (derive r) = None
    \<and> drop 11 (feature_row (derive r)) = [CBool False, CBool False, CBool False]
    \<and> drop 11 (feature_row (derive r)) = drop 11 (feature_row (derive r'))"
  using assms
  by (simp add: feature_engineer_def feature_row_def get_dummies_def age_labels_def)
     (simp add: derive_def age_group_cases)

theorem missing_age_group_indicators_witness:
  "Age_Group (derive \<lparr> Gender = CStr ''male'', Age = 95, Height = 200, Weight = 80,
       Duration = 10, Heart_Rate = 100, Body_Temp = 40, Calories = 50, User_ID = 1 \<rparr>) = None
   \<and> drop 11 (feature_row (derive \<lparr> Gender = CStr ''male'', Age = 95, Height = 200,
       Weight = 80, Duration = 10, Heart_Rate = 100, Body_Temp = 40, Calories = 50,
       User_ID = 1 \<rparr>))
     = drop 11 (feature_row (derive \<lparr> Gender = CStr ''male'', Age = 12, Height = 200,
       Weight = 80, Duration = 10, Heart_Rate = 100, Body_Temp = 40, Calories = 50,
       User_ID = 2 \<rparr>))"
proof -
  let ?r = "\<lparr> Gender = CStr ''male'', Age = 95, Height = 200, Weight = 80,
       Duration = 10, Heart_Rate = 100, Body_Temp = 40, Calories = 50, User_ID = 1 \<rparr>"
  let ?r' = "\<lparr> Gender = CStr ''male'', Age = 12, Height = 200, Weight = 80,
       Duration = 10, Heart_Rate = 100, Body_Temp = 40, Calories = 50, User_ID = 2 \<rparr>"
  have old: "Age ?r \<le> 0 \<or> 80 < Age ?r" by simp
  have young: "0 < Age ?r'" "Age ?r' \<le> 18" by simp_all
  from missing_age_group_indicators [OF old young] show ?thesis by blast
qed

text \<open>
  C10. The gender replacement turns exactly the string male into 0 and the string female
  into 1. Any other value stays as it is: the feature engineer still returns the row, and
  the unchanged value is the gender entry of the derived row and of the feature matrix row.
\<close>

theorem gender_replace_only_known:
  "replace_value gender_dict (CStr ''male'') = CInt 0
   \<and> replace_value gender_dict (CStr ''female'') = CInt 1
   \<and> (g \<noteq> CStr ''male'' \<and> g \<noteq> CStr ''female'' \<longrightarrow> replace_value gender_dict g = g)
   \<and> (Gender r \<noteq> CStr ''male'' \<and> Gender r \<noteq> CStr ''female'' \<longrightarrow>
        feature_engineer [r] = [derive r] \<and> Gender (derive r) = Gender r
        \<and> hd (feature_row (derive r)) = Gender r)"
  by (simp add: replace_value_def gender_dict_def feature_engineer_def feature_row_def
      derive_def)

theorem gender_replace_only_known_witness:
  "replace_value gender_dict (CStr ''Male'') = CStr ''Male''
   \<and> hd (feature_row (derive \<lparr> Gender = CStr ''F'', Age = 30, Height = 200, Weight = 80,
       Duration = 10, Heart_Rate = 100, Body_Temp = 40, Calories = 50, User_ID = 1 \<rparr>))
     = CStr ''F''"
  using gender_replace_only_known [of "CStr ''Male''"
      "\<lparr> Gender = CStr ''F'', Age = 30, Height = 200, Weight = 80,
       Duration = 10, Heart_Rate = 100, Body_Temp = 40, Calories = 50, User_ID = 1 \<rparr>"]
  by simp

section \<open>Properties of the outlier filter\<close>

subsection \<open>Row by row\<close>

lemma mask_rows_pointwise:
  "mask_rows t (map (\<lambda>i. P (t ! i)) [0..<length t]) = filter P t"
proof -
  have "zip t (map (\<lambda>i. P (t ! i)) [0..<length t]) = map (\<lambda>x. (x, P x)) t"
    by (rule nth_equalityI) simp_all
  then show ?thesis
    by (simp add: mask_rows_def filter_map comp_def)
qed

lemma np_var_nonneg: "0 \<le> np_var a"
  unfolding np_var_def np_mean_def
  by (intro divide_nonneg_nonneg sum_list_nonneg) auto

lemma sum_list_const: "\<forall>x\<in>set a. x = c \<Longrightarrow> sum_list a = real (length a) * c"
  by (induction a) (auto simp: algebra_simps)

lemma np_mean_const:
  assumes "a \<noteq> []" and "\<forall>x\<in>set a. x = c"
  shows "np_mean a = c"
  using assms sum_list_const [of a c] by (simp add: np_mean_def)

lemma np_var_zero_iff: "np_var a = 0 \<longleftrightarrow> isconst a"
proof (cases "a = []")
  case True
  then show ?thesis by (simp add: np_var_def np_mean_def isconst_def)
next
  case False
  let ?m = "np_mean a"
  let ?sq = "map (\<lambda>x. \<bar>x - ?m\<bar> ^ 2) a"
  have len: "real (length a) \<noteq> 0" using False by simp
  show ?thesis
  proof
    assume "np_var a = 0"
    then have "sum_list ?sq = 0"
      using len by (simp add: np_var_def np_mean_def)
    then have "\<forall>y\<in>set ?sq. y = 0"
      by (subst (asm) sum_list_nonneg_eq_0_iff) auto
    then have all: "\<forall>x\<in>set a. x = ?m" by auto
    moreover have "hd a \<in> set a" using False by simp
    ultimately have "hd a = ?m" by blast
    with all show "isconst a" by (simp add: isconst_def list_all_iff)
  next
    assume "isconst a"
    then have all: "\<forall>x\<in>set a. x = hd a" by (auto simp: isconst_def list_all_iff)
    then have "?m = hd a" using False by (rule np_mean_const[rotated])
    with all have "\<forall>y\<in>set ?sq. y = 0" by auto
    then have "sum_list ?sq = 0"
      using sum_list_const [of ?sq 0] by simp
    then show "np_var a = 0" by (simp add: np_var_def np_mean_def)
  qed
qed

lemma np_std_zero_iff: "np_std a = 0 \<longleftrightarrow> isconst a"
  by (simp add: np_std_def np_var_zero_iff)

lemma length_zscore_col: "length (zscore_col a) = length a"
  by (simp add: zscore_col_def Let_def)

lemma zscore_col_nth:
  assumes "i < length a"
  shows "lt 3 (np_abs (zscore_col a ! i))
     \<longleftrightarrow> np_std a \<noteq> 0 \<and> \<bar>(a ! i - np_mean a) / np_std a\<bar> < 3"
  using assms by (simp add: zscore_col_def Let_def lt_def np_abs_def np_std_zero_iff)

lemma outlier_filter_rows:
  "outlier_filter g t =
     filter (\<lambda>r. \<forall>f\<in>set (numeric_fields g t).
        np_std (map f t) \<noteq> 0 \<and> \<bar>(f r - np_mean (map f t)) / np_std (map f t)\<bar> < 3) t"
proof -
  let ?P = "\<lambda>r. \<forall>f\<in>set (numeric_fields g t).
        np_std (map f t) \<noteq> 0 \<and> \<bar>(f r - np_mean (map f t)) / np_std (map f t)\<bar> < 3"
  have "all_axis1 (length t)
          (map (map (lt 3)) (map (map np_abs) (zscore (select_dtypes_number g t))))
        = map (\<lambda>i. ?P (t ! i)) [0..<length t]"
    unfolding all_axis1_def
  proof (rule map_cong [OF refl])
    fix i assume "i \<in> set [0..<length t]"
    then have i: "i < length t" by simp
    show "list_all (\<lambda>c. c ! i)
            (map (map (lt 3)) (map (map np_abs) (zscore (select_dtypes_number g t))))
          = ?P (t ! i)"
    proof -
      have "map (lt 3 \<circ> np_abs) (zscore_col (map f t)) ! i
            = (np_std (map f t) \<noteq> 0
               \<and> \<bar>(f (t ! i) - np_mean (map f t)) / np_std (map f t)\<bar> < 3)" for f
        using i zscore_col_nth [of i "map f t"] by (simp add: length_zscore_col)
      then show ?thesis
        by (simp add: list_all_iff zscore_def select_dtypes_number_def)
    qed
  qed
  then have "outlier_filter g t = mask_rows t (map (\<lambda>i. ?P (t ! i)) [0..<length t])"
    unfolding outlier_filter_def Let_def by (rule arg_cong)
  also have "\<dots> = filter ?P t" by (rule mask_rows_pointwise)
  finally show ?thesis .
qed

lemma keep_iff_squares:
  "np_std a \<noteq> 0 \<and> \<bar>(x - np_mean a) / np_std a\<bar> < 3 \<longleftrightarrow> (x - np_mean a) ^ 2 < 9 * np_var a"
proof (cases "np_var a = 0")
  case True
  then show ?thesis by (simp add: np_std_def not_less)
next
  case False
  then have pos: "0 < np_var a" using np_var_nonneg [of a] by simp
  then have s: "0 < np_std a" by (simp add: np_std_def)
  have "\<bar>(x - np_mean a) / np_std a\<bar> < 3 \<longleftrightarrow> \<bar>x - np_mean a\<bar> < 3 * np_std a"
    using s by (simp add: field_simps abs_divide)
  also have "\<dots> \<longleftrightarrow> \<bar>x - np_mean a\<bar> ^ 2 < (3 * np_std a) ^ 2"
  proof -
    have "3 * np_std a \<le> \<bar>x - np_mean a\<bar> \<longleftrightarrow> (3 * np_std a) ^ 2 \<le> \<bar>x - np_mean a\<bar> ^ 2"
      using s abs_le_square_iff [of "3 * np_std a" "\<bar>x - np_mean a\<bar>"] by simp
    then show ?thesis by (simp add: not_le [symmetric])
  qed
  also have "(3 * np_std a) ^ 2 = 9 * np_var a"
    using pos by (simp add: np_std_def power_mult_distrib)
  finally show ?thesis using s by simp
qed

lemma zscore_below_code:
  "zscore_below bound a x \<longleftrightarrow> np_std a \<noteq> 0 \<and> \<bar>(x - np_mean a) / np_std a\<bar> < bound"
  by (simp add: zscore_below_def Let_def np_std_def np_var_def np_mean_def)

lemma outlier_filter_squares:
  "outlier_filter g t =
     filter (\<lambda>r. \<forall>f\<in>set (numeric_fields g t).
        (f r - np_mean (map f t)) ^ 2 < 9 * np_var (map f t)) t"
  by (simp only: outlier_filter_rows keep_iff_squares)

lemma column_passes_squares:
  "list_all (lt 3) (map np_abs (zscore_col a))
     = list_all (\<lambda>x. (x - np_mean a) ^ 2 < 9 * np_var a) a"
proof -
  have "list_all (lt 3) (map np_abs (zscore_col a))
        \<longleftrightarrow> (\<forall>i<length a. lt 3 (np_abs (zscore_col a ! i)))"
    by (simp add: list_all_length length_zscore_col)
  also have "\<dots> \<longleftrightarrow> (\<forall>i<length a. (a ! i - np_mean a) ^ 2 < 9 * np_var a)"
    by (simp only: zscore_col_nth keep_iff_squares cong: all_cong1 imp_cong)
  finally show ?thesis by (simp add: list_all_length)
qed

subsection \<open>The example tables\<close>

lemma derive_session_a:
  "derive (session_a c u) =
     \<lparr> Gender = CInt 0, Age = 20, Height = 200, Weight = 80, Duration = 10,
       Heart_Rate = 100, Body_Temp = 40, Calories = c, BMI = 20, Age_Group = Some 1,
       Age_x_Duration = 200, Weight_x_Duration = 800, HeartRate_x_BodyTemp = 4000 \<rparr>"
  by (simp add: derive_def session_a_def bmi_def age_group_cases replace_value_def
      gender_dict_def)

lemma derive_session_b:
  "derive (session_b c u) =
     \<lparr> Gender = CInt 1, Age = 30, Height = 160, Weight = 64, Duration = 20,
       Heart_Rate = 110, Body_Temp = 41, Calories = c, BMI = 25, Age_Group = Some 1,
       Age_x_Duration = 600, Weight_x_Duration = 1280, HeartRate_x_BodyTemp = 4510 \<rparr>"
  by (simp add: derive_def session_b_def bmi_def age_group_cases replace_value_def
      gender_dict_def power2_eq_square)

lemmas table_eval =
  feature_engineer_def derive_session_a derive_session_b numeric_fields_def is_number_def
  cell_value_def np_var_def np_mean_def power2_eq_square

lemma twelve_first_pass:
  "outlier_filter g (feature_engineer twelve_sessions)
     = butlast (feature_engineer twelve_sessions)"
  by (cases g) (simp_all add: outlier_filter_squares twelve_sessions_def table_eval)

lemma twelve_second_pass:
  "outlier_filter g (butlast (feature_engineer twelve_sessions))
     = take 10 (feature_engineer twelve_sessions)"
  by (cases g) (simp_all add: outlier_filter_squares twelve_sessions_def table_eval)

lemma two_sessions_pass:
  "outlier_filter g (feature_engineer two_sessions) = feature_engineer two_sessions"
  by (cases g) (simp_all add: outlier_filter_squares two_sessions_def table_eval)

lemma ten_sessions_pass:
  "outlier_filter g (feature_engineer ten_sessions) = feature_engineer ten_sessions"
  by (cases g) (simp_all add: outlier_filter_squares ten_sessions_def table_eval)

lemma equal_calories_drop:
  "outlier_filter g (feature_engineer equal_calories) = []"
  by (cases g) (simp_all add: outlier_filter_squares equal_calories_def table_eval)

subsection \<open>The claims\<close>

lemma outlier_filter_columns:
  "outlier_filter gender_numeric t =
     filter (\<lambda>r.
         (gender_numeric \<and> list_all (\<lambda>r. is_number (Gender r)) t \<longrightarrow>
            zscore_below 3 (map (\<lambda>r. cell_value (Gender r)) t) (cell_value (Gender r)))
       \<and> zscore_below 3 (map (\<lambda>r. of_int (Age r)) t) (of_int (Age r))
       \<and> zscore_below 3 (map Height t) (Height r)
       \<and> zscore_below 3 (map Weight t) (Weight r)
       \<and> zscore_below 3 (map Duration t) (Duration r)
       \<and> zscore_below 3 (map Heart_Rate t) (Heart_Rate r)
       \<and> zscore_below 3 (map Body_Temp t) (Body_Temp r)
       \<and> zscore_below 3 (map Calories t) (Calories r)
       \<and> zscore_below 3 (map BMI t) (BMI r)
       \<and> zscore_below 3 (map Age_x_Duration t) (Age_x_Duration r)
       \<and> zscore_below 3 (map Weight_x_Duration t) (Weight_x_Duration r)
       \<and> zscore_below 3 (map HeartRate_x_BodyTemp t) (HeartRate_x_BodyTemp r)) t"
  unfolding outlier_filter_rows
  by (rule filter_cong [OF refl]) (auto simp add: numeric_fields_def zscore_below_code)

lemma is_number_cases: "is_number c \<longleftrightarrow> (\<exists>i. c = CInt i) \<or> (\<exists>x. c = CFloat x)"
  by (cases c) (simp_all add: is_number_def)

lemma gender_is_numeric_strings:
  assumes "loaded \<noteq> []"
    and "\<forall>r\<in>set loaded. Gender r = CStr ''male'' \<or> Gender r = CStr ''female''"
  shows "gender_is_numeric infer_objects loaded = infer_objects"
proof -
  from assms(1) obtain r where r: "r \<in> set loaded" by (cases loaded) auto
  with assms(2) have "Gender r = CStr ''male'' \<or> Gender r = CStr ''female''" by blast
  then have "\<not> is_number (Gender r)" by (auto simp: is_number_def)
  with r have "\<not> list_all (\<lambda>r. is_number (Gender r)) loaded"
    unfolding list_all_iff by blast
  moreover have "list_all (\<lambda>r. is_number (replace_value gender_dict (Gender r))) loaded"
    using assms(2)
    by (auto simp: list_all_iff is_number_def replace_value_def gender_dict_def)
  ultimately show ?thesis by (simp add: gender_is_numeric_def)
qed

text \<open>
  C3. The outlier filter takes the z-score (value minus column mean, divided by column
  standard deviation) of each numeric column, with the mean and the standard deviation of
  the whole table it is given: of \<open>Age\<close>, \<open>Height\<close>, \<open>Weight\<close>, \<open>Duration\<close>,
  \<open>Heart_Rate\<close>, \<open>Body_Temp\<close>, \<open>Calories\<close>, \<open>BMI\<close>, \<open>Age_x_Duration\<close>,
  \<open>Weight_x_Duration\<close> and \<open>HeartRate_x_BodyTemp\<close>, and of \<open>Gender\<close> when that column
  has a numeric dtype. It keeps exactly the rows in which every one of these columns has a
  defined z-score of absolute value < 3: one column reaching 3 drops the row. A gender
  entry counts as a number when it is an integer or a float, and then with that value. A
  gender column loaded as the strings male and female is numeric after the replacement
  exactly when the library infers dtypes again (pandas before 3.0); a gender column
  loaded as numbers is numeric.
\<close>

theorem outlier_filter_joint:
  "outlier_filter gender_numeric t =
     filter (\<lambda>r.
         (gender_numeric \<and> list_all (\<lambda>r. is_number (Gender r)) t \<longrightarrow>
            zscore_below 3 (map (\<lambda>r. cell_value (Gender r)) t) (cell_value (Gender r)))
       \<and> zscore_below 3 (map (\<lambda>r. of_int (Age r)) t) (of_int (Age r))
       \<and> zscore_below 3 (map Height t) (Height r)
       \<and> zscore_below 3 (map Weight t) (Weight r)
       \<and> zscore_below 3 (map Duration t) (Duration r)
       \<and> zscore_below 3 (map Heart_Rate t) (Heart_Rate r)
       \<and> zscore_below 3 (map Body_Temp t) (Body_Temp r)
       \<and> zscore_below 3 (map Calories t) (Calories r)
       \<and> zscore_below 3 (map BMI t) (BMI r)
       \<and> zscore_below 3 (map Age_x_Duration t) (Age_x_Duration r)
       \<and> zscore_below 3 (map Weight_x_Duration t) (Weight_x_Duration r)
       \<and> zscore_below 3 (map HeartRate_x_BodyTemp t) (HeartRate_x_BodyTemp r)) t
   \<and> (is_number c \<longleftrightarrow> (\<exists>i. c = CInt i) \<or> (\<exists>x. c = CFloat x))
   \<and> cell_value (CInt i) = of_int i \<and> cell_value (CFloat x) = x
   \<and> (loaded \<noteq> []
        \<and> (\<forall>r\<in>set loaded. Gender r = CStr ''male'' \<or> Gender r = CStr ''female'')
       \<longrightarrow> gender_is_numeric infer_objects loaded = infer_objects)
   \<and> ((\<forall>r\<in>set loaded. is_number (Gender r)) \<longrightarrow> gender_is_numeric infer_objects loaded)"
  using outlier_filter_columns [of gender_numeric t] is_number_cases [of c]
    gender_is_numeric_strings [of loaded infer_objects]
  by (simp add: cell_value_def gender_is_numeric_def list_all_iff)

theorem outlier_filter_joint_witness:
  "length (outlier_filter True (feature_engineer twelve_sessions)) = 11
   \<and> last (feature_engineer twelve_sessions)
       \<notin> set (outlier_filter True (feature_engineer twelve_sessions))
   \<and> length (outlier_filter False (feature_engineer twelve_sessions)) = 11
   \<and> gender_is_numeric True twelve_sessions \<and> \<not> gender_is_numeric False twelve_sessions"
proof -
  have strings: "twelve_sessions \<noteq> []
        \<and> (\<forall>r\<in>set twelve_sessions. Gender r = CStr ''male'' \<or> Gender r = CStr ''female'')"
    by (simp add: twelve_sessions_def session_a_def session_b_def)
  note inst = outlier_filter_joint [of _ "feature_engineer twelve_sessions" "CInt 0" 0 0
      twelve_sessions]
  have kept: "length (outlier_filter g (feature_engineer twelve_sessions)) = 11
      \<and> last (feature_engineer twelve_sessions)
           \<notin> set (outlier_filter g (feature_engineer twelve_sessions))" for g
    unfolding inst [of g True, THEN conjunct1] zscore_below_code keep_iff_squares
    by (cases g) (simp_all add: twelve_sessions_def table_eval)
  have "gender_is_numeric True twelve_sessions"
    using inst [of True True] strings by blast
  moreover have "\<not> gender_is_numeric False twelve_sessions"
    using inst [of True False] strings by blast
  ultimately show ?thesis using kept by blast
qed

text \<open>
  C4 as stated fails: on the twelve sessions the first application drops the session with
  1100 calories, and the second application drops the session with 110 calories, which
  the first one kept; so it is whether the gender column counts as numeric or not.
\<close>

theorem outlier_filter_not_idempotent:
  "outlier_filter True (outlier_filter True (feature_engineer twelve_sessions))
     \<noteq> outlier_filter True (feature_engineer twelve_sessions)
   \<and> outlier_filter False (outlier_filter False (feature_engineer twelve_sessions))
     \<noteq> outlier_filter False (feature_engineer twelve_sessions)"
proof -
  have two: "length (outlier_filter g (outlier_filter g (feature_engineer twelve_sessions))) = 10"
    for g
    by (simp add: twelve_first_pass twelve_second_pass)
       (simp add: twelve_sessions_def feature_engineer_def)
  have one: "length (outlier_filter g (feature_engineer twelve_sessions)) = 11" for g
    by (simp add: twelve_first_pass) (simp add: twelve_sessions_def feature_engineer_def)
  have "outlier_filter g (outlier_filter g (feature_engineer twelve_sessions))
       \<noteq> outlier_filter g (feature_engineer twelve_sessions)" for g
  proof
    assume "outlier_filter g (outlier_filter g (feature_engineer twelve_sessions))
       = outlier_filter g (feature_engineer twelve_sessions)"
    then have "length (outlier_filter g (outlier_filter g (feature_engineer twelve_sessions)))
       = length (outlier_filter g (feature_engineer twelve_sessions))"
      by simp
    then show False by (simp only: two one)
  qed
  then show ?thesis by blast
qed

text \<open>
  C4, amended. A second application never brings a row back: its result is a sub-list of
  the first result. It drops no further row exactly when every row of the first result
  has, in every numeric column, a defined z-score of absolute value < 3 for the mean and
  the standard deviation taken again over the first result.
\<close>

theorem outlier_filter_second_pass:
  "subseq (outlier_filter g (outlier_filter g t)) (outlier_filter g t)
   \<and> (outlier_filter g (outlier_filter g t) = outlier_filter g t \<longleftrightarrow>
        (\<forall>r\<in>set (outlier_filter g t). \<forall>f\<in>set (numeric_fields g (outlier_filter g t)).
           np_std (map f (outlier_filter g t)) \<noteq> 0
           \<and> \<bar>(f r - np_mean (map f (outlier_filter g t))) / np_std (map f (outlier_filter g t))\<bar>
               < 3))"
proof
  show "subseq (outlier_filter g (outlier_filter g t)) (outlier_filter g t)"
    by (subst outlier_filter_rows) simp
next
  show "outlier_filter g (outlier_filter g t) = outlier_filter g t \<longleftrightarrow>
        (\<forall>r\<in>set (outlier_filter g t). \<forall>f\<in>set (numeric_fields g (outlier_filter g t)).
           np_std (map f (outlier_filter g t)) \<noteq> 0
           \<and> \<bar>(f r - np_mean (map f (outlier_filter g t))) / np_std (map f (outlier_filter g t))\<bar>
               < 3)"
    by (subst outlier_filter_rows) (simp only: filter_id_conv)
qed

theorem outlier_filter_second_pass_witness:
  "outlier_filter True (outlier_filter True (feature_engineer two_sessions))
     = outlier_filter True (feature_engineer two_sessions)"
proof -
  have "\<forall>r\<in>set (feature_engineer two_sessions).
          \<forall>f\<in>set (numeric_fields True (feature_engineer two_sessions)).
            np_std (map f (feature_engineer two_sessions)) \<noteq> 0
            \<and> \<bar>(f r - np_mean (map f (feature_engineer two_sessions)))
                 / np_std (map f (feature_engineer two_sessions))\<bar> < 3"
    unfolding keep_iff_squares by (simp add: two_sessions_def table_eval)
  then show ?thesis
    using outlier_filter_second_pass [of True "feature_engineer two_sessions"]
    by (simp only: two_sessions_pass)
qed

text \<open>
  C5 as stated fails: with the two sessions of equal calories the calories column has zero
  variance, every other numeric column has all its z-scores below 3, and the filter drops
  both rows; so it is whether the gender column counts as numeric or not.
\<close>

theorem zero_variance_column_flags_rows:
  "np_var (map Calories (feature_engineer equal_calories)) = 0
   \<and> map (list_all (lt 3))
       (map (map np_abs)
          (zscore (select_dtypes_number True (feature_engineer equal_calories))))
     = [True, True, True, True, True, True, True, False, True, True, True, True]
   \<and> map (list_all (lt 3))
       (map (map np_abs)
          (zscore (select_dtypes_number False (feature_engineer equal_calories))))
     = [True, True, True, True, True, True, False, True, True, True, True]
   \<and> length (feature_engineer equal_calories) = 2
   \<and> outlier_filter True (feature_engineer equal_calories) = []
   \<and> outlier_filter False (feature_engineer equal_calories) = []"
proof (intro conjI)
  show "np_var (map Calories (feature_engineer equal_calories)) = 0"
    by (simp add: equal_calories_def table_eval)
  show "map (list_all (lt 3))
       (map (map np_abs)
          (zscore (select_dtypes_number True (feature_engineer equal_calories))))
     = [True, True, True, True, True, True, True, False, True, True, True, True]"
    by (simp add: zscore_def select_dtypes_number_def comp_def column_passes_squares)
       (simp add: equal_calories_def table_eval)
  show "map (list_all (lt 3))
       (map (map np_abs)
          (zscore (select_dtypes_number False (feature_engineer equal_calories))))
     = [True, True, True, True, True, True, False, True, True, True, True]"
    by (simp add: zscore_def select_dtypes_number_def comp_def column_passes_squares)
       (simp add: equal_calories_def table_eval)
  show "length (feature_engineer equal_calories) = 2"
    by (simp add: equal_calories_def feature_engineer_def)
  show "outlier_filter True (feature_engineer equal_calories) = []"
    by (rule equal_calories_drop)
  show "outlier_filter False (feature_engineer equal_calories) = []"
    by (rule equal_calories_drop)
qed

text \<open>
  C5, amended. When a numeric column of the table has zero variance, its z-score is
  undefined in every row, the comparison with 3 is false for it, and the filter drops
  every row of the table.
\<close>

theorem zero_variance_drops_all:
  assumes "f \<in> set (numeric_fields g t)" and "np_var (map f t) = 0"
  shows "zscore_col (map f t) = replicate (length t) None \<and> outlier_filter g t = []"
proof
  have c: "isconst (map f t)" using assms(2) by (simp add: np_var_zero_iff)
  then show "zscore_col (map f t) = replicate (length t) None"
    by (simp add: zscore_col_def Let_def map_replicate_const)
  have "np_std (map f t) = 0" using c by (simp add: np_std_zero_iff)
  with assms(1) show "outlier_filter g t = []"
    by (subst outlier_filter_rows) (auto simp: filter_empty_conv)
qed

theorem zero_variance_drops_all_witness:
  "zscore_col (map Calories (feature_engineer equal_calories)) = [None, None]
   \<and> outlier_filter True (feature_engineer equal_calories) = []"
proof -
  have "Calories \<in> set (numeric_fields True (feature_engineer equal_calories))"
    by (simp add: numeric_fields_def)
  moreover have "np_var (map Calories (feature_engineer equal_calories)) = 0"
    by (simp add: equal_calories_def table_eval)
  ultimately show ?thesis
    using zero_variance_drops_all [of Calories True "feature_engineer equal_calories"]
    by (simp add: equal_calories_def feature_engineer_def)
qed


section \<open>Properties of the splitter\<close>

subsection \<open>The size of the holdout set\<close>

lemma bit_length_bounds: "0 < n \<Longrightarrow> 2 ^ (bit_length n - 1) \<le> n \<and> n < 2 ^ bit_length n"
proof (induction n rule: bit_length.induct)
  case (1 n)
  show ?case
  proof (cases "n div 2 = 0")
    case True
    with "1.prems" have "n = 1" by (simp add: div_eq_0_iff)
    then show ?thesis by (simp add: bit_length.simps [of "Suc 0"] bit_length.simps [of 0])
  next
    case False
    then have pos: "0 < n div 2" by simp
    from "1.IH" [OF _ pos] "1.prems"
    have ih: "2 ^ (bit_length (n div 2) - 1) \<le> n div 2" "n div 2 < 2 ^ bit_length (n div 2)"
      by simp_all
    have bl: "bit_length n = Suc (bit_length (n div 2))"
      using "1.prems" by (subst bit_length.simps) simp
    have "0 < bit_length (n div 2)" using pos by (subst bit_length.simps) simp
    then have "(2::nat) ^ bit_length (n div 2) = 2 * 2 ^ (bit_length (n div 2) - 1)"
      by (cases "bit_length (n div 2)") simp_all
    with ih(1) have "2 ^ bit_length (n div 2) \<le> 2 * (n div 2)" by simp
    then have lower: "2 ^ bit_length (n div 2) \<le> n" by linarith
    from ih(2) have "n div 2 + 1 \<le> 2 ^ bit_length (n div 2)" by simp
    then have upper: "n < 2 * 2 ^ bit_length (n div 2)" by linarith
    from lower upper show ?thesis by (simp add: bl)
  qed
qed


lemma round53_le: "round53 p \<le> 2 * p"
proof (cases "p = 0")
  case True
  then show ?thesis by (simp add: round53_def Let_def)
next
  case False
  define s where "s = bit_length p - 53"
  have "(2::nat) ^ s \<le> 2 ^ (bit_length p - 1)"
    by (rule power_increasing) (simp_all add: s_def)
  also have "\<dots> \<le> p" using bit_length_bounds [of p] False by simp
  finally have s: "2 ^ s \<le> p" .
  have "(p div 2 ^ s + 1) * 2 ^ s = p div 2 ^ s * 2 ^ s + 2 ^ s" by (simp add: algebra_simps)
  also have "\<dots> \<le> p + 2 ^ s" by simp
  also have "\<dots> \<le> 2 * p" using s by simp
  finally have up: "(p div 2 ^ s + 1) * 2 ^ s \<le> 2 * p" .
  have down: "p div 2 ^ s * 2 ^ s \<le> 2 * p"
    by (rule order_trans [of _ p]) simp_all
  show ?thesis
    unfolding round53_def Let_def s_def [symmetric] using up down by (simp split: if_splits)
qed

lemma two_54: "(2::nat) ^ 54 = 18014398509481984"
  by simp

lemma n_test_of_less: "2 \<le> n \<Longrightarrow> n_test_of n < n"
proof -
  assume n: "2 \<le> n"
  have "round53 (n * test_size_numerator) \<le> 2 * (n * test_size_numerator)"
    by (rule round53_le)
  also have "\<dots> = n * 7205759403792794"
    by (simp add: test_size_numerator_def)
  finally have "round53 (n * test_size_numerator) + 18014398509481983
      < n * 18014398509481984"
    using n by linarith
  then show ?thesis
    unfolding n_test_of_def two_54 by (simp add: less_mult_imp_div_less)
qed

lemma round53_near:
  fixes p :: nat
  defines "s \<equiv> bit_length p - 53"
  shows "2 ^ s dvd round53 p"
    and "2 * round53 p \<le> 2 * p + 2 ^ s"
    and "2 * p \<le> 2 * round53 p + 2 ^ s"
proof -
  define q where "q = p div 2 ^ s"
  define r where "r = p mod 2 ^ s"
  define u :: nat where "u = 2 ^ s"
  have p: "p = q * u + r" unfolding q_def r_def u_def by (rule div_mult_mod_eq [symmetric])
  have r: "r < u" by (simp add: r_def u_def)
  have R: "round53 p = (if u < 2 * r \<or> (2 * r = u \<and> odd q) then q + 1 else q) * u"
    unfolding round53_def Let_def s_def [symmetric] q_def r_def u_def ..
  show "2 ^ s dvd round53 p" unfolding R u_def by simp
  have "(q + 1) * u = q * u + u" by (simp add: algebra_simps)
  then show "2 * round53 p \<le> 2 * p + 2 ^ s" 
    unfolding R u_def [symmetric] using p r by (auto split: if_splits)
  show "2 * p \<le> 2 * round53 p + 2 ^ s"
    unfolding R u_def [symmetric] using p r \<open>(q + 1) * u = q * u + u\<close> by (auto split: if_splits)
qed

lemma round53_relative:
  "2 ^ 53 * round53 p \<le> 2 ^ 53 * p + p" (is ?up)
  "2 ^ 53 * p \<le> 2 ^ 53 * round53 p + p" (is ?down)
proof -
  define s where "s = bit_length p - 53"
  note near = round53_near [of p, folded s_def]
  have "?up \<and> ?down"
  proof (cases "s = 0")
    case True
    with near(2,3) have "round53 p = p" by simp
    then show ?thesis by simp
  next
    case False
    then have "bit_length p - 1 = s + 52" by (simp add: s_def)
    moreover have "0 < p" using False by (cases "p = 0") (simp_all add: s_def bit_length.simps [of 0])
    ultimately have "(2::nat) ^ (s + 52) \<le> p" using bit_length_bounds [of p] by simp
    then have u: "2 ^ 52 * 2 ^ s \<le> p" by (simp add: power_add mult.commute)
    have "2 ^ 53 * round53 p = 2 ^ 52 * (2 * round53 p)" by simp
    also have "\<dots> \<le> 2 ^ 52 * (2 * p + 2 ^ s)" using near(2) by (rule mult_le_mono2)
    also have "\<dots> = 2 ^ 53 * p + 2 ^ 52 * 2 ^ s" by (simp add: algebra_simps)
    finally have a: ?up using u by linarith
    have "2 ^ 53 * p = 2 ^ 52 * (2 * p)" by simp
    also have "\<dots> \<le> 2 ^ 52 * (2 * round53 p + 2 ^ s)" using near(3) by (rule mult_le_mono2)
    also have "\<dots> = 2 ^ 53 * round53 p + 2 ^ 52 * 2 ^ s" by (simp add: algebra_simps)
    finally have b: ?down using u by linarith
    from a b show ?thesis ..
  qed
  then show ?up ?down by simp_all
qed

lemma bit_length_le: "p < 2 ^ k \<Longrightarrow> bit_length p \<le> k"
proof (cases "p = 0")
  case True
  then show ?thesis by (simp add: bit_length.simps [of 0])
next
  case False
  assume "p < 2 ^ k"
  moreover have "2 ^ (bit_length p - 1) \<le> p" using bit_length_bounds [of p] False by simp
  ultimately have "(2::nat) ^ (bit_length p - 1) < 2 ^ k" by linarith
  then have "bit_length p - 1 < k" by simp
  then show ?thesis by linarith
qed

lemma bit_length_gt: "2 ^ k \<le> p \<Longrightarrow> k < bit_length p"
proof -
  assume a: "2 ^ k \<le> p"
  then have "0 < p" by (cases "p = 0") simp_all
  then have "p < 2 ^ bit_length p" using bit_length_bounds [of p] by simp
  with a have "(2::nat) ^ k < 2 ^ bit_length p" by linarith
  then show ?thesis by simp
qed

lemma ceil_div_eq:
  fixes R B c :: nat
  assumes "0 < B" and "(c - 1) * B < R" and "R \<le> c * B" 
  shows "(R + (B - 1)) div B = c"
proof (rule div_nat_eqI)
  have "0 < c" using assms by (cases c) simp_all
  then have "c * B = (c - 1) * B + B" by (cases c) simp_all
  with assms show "B * c \<le> R + (B - 1)" by (simp add: mult.commute)
  from assms show "R + (B - 1) < B * Suc c" by (simp add: mult.commute)
qed

lemma n_test_of_not_multiple:
  assumes "n < 2 ^ 52" and "n mod 5 \<noteq> 0"
  shows "n_test_of n = n div 5 + 1"
proof -
  define R where "R = round53 (n * 3602879701896397)"
  define d where "d = n div 5"
  define j where "j = n mod 5"
  have n: "n = 5 * d + j" by (simp add: d_def j_def)
  have j: "1 \<le> j" "j \<le> 4" using assms(2) by (simp_all add: j_def) 
  have n52: "n < 4503599627370496" using assms(1) by simp
  have up: "9007199254740992 * R \<le> 9007199254740992 * (n * 3602879701896397) + n * 3602879701896397"
    using round53_relative(1) [of "n * 3602879701896397"] by (simp add: R_def)
  have down: "9007199254740992 * (n * 3602879701896397) \<le> 9007199254740992 * R + n * 3602879701896397"
    using round53_relative(2) [of "n * 3602879701896397"] by (simp add: R_def)
  have lo: "d * 18014398509481984 < R" using down n j n52 by linarith
  have up': "9007199254740992 * R \<le> n * 32451855365842678082635154902221"
    using up by simp
  have "9007199254740992 * R \<le> 9007199254740992 * (d * 18014398509481984 + 18014398509481984)"
    using up' n j n52 by simp
  then have hi: "R \<le> (d + 1) * 18014398509481984" by simp
  have "(R + (18014398509481984 - 1)) div 18014398509481984 = d + 1"
    by (rule ceil_div_eq) (use lo hi in simp_all)
  then show ?thesis
    by (simp add: n_test_of_def test_size_numerator_def R_def d_def)
qed


lemma n_test_of_multiple:
  assumes "5 * c < 2 ^ 52"
  shows "n_test_of (5 * c) = c"
proof (cases "c = 0")
  case True
  then show ?thesis
    by (simp add: n_test_of_def round53_def bit_length.simps [of 0])
next
  case False
  define P where "P = 5 * c * 3602879701896397"
  define s where "s = bit_length P - 53"
  define R where "R = round53 P"
  have P: "P = c * 2 ^ 54 + c" by (simp add: P_def)
  have c52: "c < 2 ^ 52" using assms by simp
  have "P < 2 ^ 52 * 2 ^ 54 + 2 ^ 52"
    unfolding P using c52 by (intro add_less_mono mult_strict_right_mono) simp_all
  also have "\<dots> \<le> (2::nat) ^ 107" by simp
  finally have "bit_length P \<le> 107" by (rule bit_length_le)
  then have s54: "s \<le> 54" by (simp add: s_def)
  have "2 ^ 54 \<le> P" using False unfolding P by (cases c) simp_all
  then have "54 < bit_length P" by (rule bit_length_gt)
  then have L: "bit_length P = s + 53" by (simp add: s_def)
  have "0 < P" using False by (simp add: P_def)
  then have "P < 2 ^ (s + 53)" using bit_length_bounds [of P] by (simp add: L)
  then have "c * 2 ^ 54 < 2 ^ s * 2 ^ 53" by (simp add: P power_add)
  then have "2 * c * 2 ^ 53 < 2 ^ s * 2 ^ 53" by simp
  then have small: "2 * c < 2 ^ s" by (simp only: mult_less_cancel2)
  note near = round53_near [of P, folded s_def R_def]
  define cB where "cB = c * 2 ^ 54"
  define u :: nat where "u = 2 ^ s"
  have PB: "P = cB + c" by (simp add: P cB_def)
  have u: "2 * c < u" "0 < u" using small by (simp_all add: u_def)
  from near(1) obtain k where k: "R = u * k" by (auto simp: dvd_def u_def)
  have "(2::nat) ^ s dvd 2 ^ 54" using s54 by (rule le_imp_power_dvd)
  then have "u dvd cB" unfolding cB_def u_def by (rule dvd_mult)
  then obtain m where m: "cB = u * m" by (auto simp: dvd_def)
  have "2 * R \<le> 2 * (cB + c) + u" using near(2) by (simp add: PB u_def)
  then have "R < cB + u" using u by arith
  then have "u * k < u * (m + 1)" by (simp add: k m)
  then have "k < m + 1" by (simp only: mult_less_cancel1)
  then have km: "k \<le> m" by simp
  have "2 * (cB + c) \<le> 2 * R + u" using near(3) by (simp add: PB u_def)
  then have "cB < R + u" using u by arith
  then have "u * m < u * (k + 1)" by (simp add: k m)
  then have "m < k + 1" by (simp only: mult_less_cancel1)
  then have "m \<le> k" by simp
  with km have "R = c * 2 ^ 54" using k m by (simp add: cB_def)
  then have "n_test_of (5 * c) = (c * 2 ^ 54 + (2 ^ 54 - 1)) div 2 ^ 54"
    by (simp add: n_test_of_def test_size_numerator_def R_def P_def)
  then show ?thesis by simp
qed

lemma n_test_of_exact:
  assumes "n < 2 ^ 52"
  shows "n_test_of n = (n + 4) div 5"
proof (cases "n mod 5 = 0")
  case True
  then obtain c where c: "n = 5 * c" by (auto simp: mod_eq_0_iff_dvd dvd_def)
  with assms n_test_of_multiple [of c] show ?thesis by simp
next
  case False
  with assms have "n_test_of n = n div 5 + 1" by (rule n_test_of_not_multiple)
  also have "\<dots> = (n + 4) div 5" using False by presburger
  finally show ?thesis .
qed

lemma n_test_of_5: "n_test_of 5 = 1"
  by (simp add: n_test_of_def round53_def test_size_numerator_def bit_length.simps)

lemma n_test_of_5_Suc: "n_test_of (Suc (Suc (Suc (Suc (Suc 0))))) = Suc 0"
  using n_test_of_5 by (simp add: numeral_eq_Suc)


subsection \<open>The partition\<close>

lemma split_indices_partition:
  assumes "distinct perm" and "n_test < length perm"
  shows "distinct (fst (split_indices perm n_test (length perm - n_test))
                   @ snd (split_indices perm n_test (length perm - n_test)))"
    and "set (fst (split_indices perm n_test (length perm - n_test))
                   @ snd (split_indices perm n_test (length perm - n_test))) = set perm"
    and "length (snd (split_indices perm n_test (length perm - n_test))) = n_test"
    and "length (fst (split_indices perm n_test (length perm - n_test))) = length perm - n_test"
proof -
  have parts: "take n_test perm @ drop n_test perm = perm" by simp
  have tr: "take (length perm - n_test) (drop n_test perm) = drop n_test perm" by simp
  have d: "distinct (take n_test perm @ drop n_test perm)" using assms(1) by simp
  show "distinct (fst (split_indices perm n_test (length perm - n_test))
                   @ snd (split_indices perm n_test (length perm - n_test)))"
    using d unfolding split_indices_def fst_conv snd_conv tr distinct_append by blast
  have "set (drop n_test perm @ take n_test perm) = set (take n_test perm @ drop n_test perm)"
    by (simp only: set_append Un_commute)
  then show "set (fst (split_indices perm n_test (length perm - n_test))
                   @ snd (split_indices perm n_test (length perm - n_test))) = set perm"
    unfolding split_indices_def fst_conv snd_conv tr parts .
  show "length (snd (split_indices perm n_test (length perm - n_test))) = n_test"
    using assms(2) by (simp add: split_indices_def)
  show "length (fst (split_indices perm n_test (length perm - n_test))) = length perm - n_test"
    by (simp add: split_indices_def)
qed


lemma train_test_split_result:
  fixes X :: "'a list" and Y :: "'b list"
  assumes "length Y = length X" and "2 \<le> length X" and "length X < 2 ^ 52"
    and "distinct (fst (permutation (RandomState 2) (length X)))"
    and "set (fst (permutation (RandomState 2) (length X))) = {0..<length X}"
  shows "\<exists>train test.
           distinct (train @ test) \<and> set (train @ test) = {0..<length X}
         \<and> length test = (length X + 4) div 5
         \<and> length train = length X - (length X + 4) div 5
         \<and> (\<forall>global. train_test_split RandomState permutation X Y (Some 2) global
               = Inr ((map (nth X) train, map (nth X) test,
                       map (nth Y) train, map (nth Y) test), global))"
proof -
  define n where "n = length X"
  obtain perm rng' where pr: "permutation (RandomState 2) n = (perm, rng')"
    by (cases "permutation (RandomState 2) n")
  have perm: "distinct perm" "set perm = {0..<n}"
    using assms(4,5) by (simp_all add: n_def [symmetric] pr)
  then have len: "length perm = n"
    using distinct_card [of perm] by simp
  have nt: "n_test_of n < n" "n_test_of n = (n + 4) div 5"
    using assms(2,3) by (simp_all add: n_def n_test_of_less n_test_of_exact)
  define train where "train = fst (split_indices perm (n_test_of n) (n - n_test_of n))"
  define test where "test = snd (split_indices perm (n_test_of n) (n - n_test_of n))"
  note part = split_indices_partition [of perm "n_test_of n", unfolded len,
      folded train_def test_def, OF perm(1) nt(1)]
  have "train_test_split RandomState permutation X Y (Some 2) global
          = Inr ((map (nth X) train, map (nth X) test,
                  map (nth Y) train, map (nth Y) test), global)" for global
    using assms(1,2) nt(1)
    by (simp add: train_test_split_def Let_def check_random_state_def n_def [symmetric] pr
        train_def test_def split_beta)
  then have all: "\<forall>global. train_test_split RandomState permutation X Y (Some 2) global
          = Inr ((map (nth X) train, map (nth X) test,
                  map (nth Y) train, map (nth Y) test), global)" ..
  show ?thesis
    unfolding n_def [symmetric]
  proof (intro exI conjI)
    show "distinct (train @ test)" by (rule part(1))
    show "set (train @ test) = {0..<n}" using part(2) perm(2) by simp
    show "length test = (n + 4) div 5" using part(3) nt(2) by simp
    show "length train = n - (n + 4) div 5" using part(4) nt(2) by simp
    show "\<forall>global. train_test_split RandomState permutation X Y (Some 2) global
          = Inr ((map (nth X) train, map (nth X) test,
                  map (nth Y) train, map (nth Y) test), global)" by (rule all)
  qed
qed



text \<open>
  C6. For a table of at least two rows, with the generator's permutation for seed 2 being
  a permutation of the row indices, the splitter returns a training part and a holdout
  part that together hold every row index exactly once; the holdout part has a fifth of
  the rows (rounded up), the training part the remaining four fifths; features and labels
  are picked with the same indices, so each feature row keeps its label; and the result is
  the same for every state of the process-wide generator, which the call leaves as it
  was: two runs on the same input give the same partition.
\<close>

theorem train_test_split_partition:
  fixes X :: "'a list" and Y :: "'b list"
  assumes "length Y = length X" and "2 \<le> length X" and "length X < 2 ^ 52"
    and "distinct (fst (permutation (RandomState 2) (length X)))"
    and "set (fst (permutation (RandomState 2) (length X))) = {0..<length X}"
  shows "\<exists>train test.
           distinct (train @ test) \<and> set (train @ test) = {0..<length X}
         \<and> length test = (length X + 4) div 5
         \<and> length train = length X - (length X + 4) div 5
         \<and> (\<forall>global. train_test_split RandomState permutation X Y (Some 2) global
               = Inr ((map (nth X) train, map (nth X) test,
                       map (nth Y) train, map (nth Y) test), global))"
  using assms by (rule train_test_split_result)

theorem train_test_split_partition_witness:
  "train_test_split (\<lambda>seed. seed) (\<lambda>s n. (rev [0..<n], Suc s))
      [10, 20, 30, 40, 50 :: nat] ''abcde'' (Some 2) (7 :: nat)
     = Inr (([40, 30, 20, 10], [50], ''dcba'', ''e''), 7)
   \<and> (\<exists>train test. length test = 1 \<and> length train = 4
        \<and> train_test_split (\<lambda>seed. seed) (\<lambda>s n. (rev [0..<n], Suc s))
            [10, 20, 30, 40, 50 :: nat] ''abcde'' (Some 2) (8 :: nat)
          = Inr ((map (nth [10, 20, 30, 40, 50]) train, map (nth [10, 20, 30, 40, 50]) test,
                  map (nth ''abcde'') train, map (nth ''abcde'') test), 8))"
proof
  show "train_test_split (\<lambda>seed. seed) (\<lambda>s n. (rev [0..<n], Suc s))
      [10, 20, 30, 40, 50 :: nat] ''abcde'' (Some 2) (7 :: nat)
     = Inr (([40, 30, 20, 10], [50], ''dcba'', ''e''), 7)"
    by (simp add: train_test_split_def Let_def check_random_state_def split_indices_def
        n_test_of_5_Suc upt_rec)
next
  let ?X = "[10, 20, 30, 40, 50 :: nat]"
  let ?Y = "''abcde''"
  let ?RS = "\<lambda>seed :: nat. seed"
  let ?perm = "\<lambda>(s :: nat) n. (rev [0..<n], Suc s)"
  have h1: "length ?Y = length ?X" by simp
  have h2: "2 \<le> length ?X" by simp
  have h3: "length ?X < 2 ^ 52" by simp
  have h4: "distinct (fst (?perm (?RS 2) (length ?X)))" by simp
  have h5: "set (fst (?perm (?RS 2) (length ?X))) = {0..<length ?X}"
    by (simp only: fst_conv set_rev set_upt)
  from train_test_split_partition [of ?Y ?X ?perm ?RS, OF h1 h2 h3 h4 h5]
  obtain train test where
      "length test = (length ?X + 4) div 5" "length train = length ?X - (length ?X + 4) div 5"
      "\<forall>global. train_test_split ?RS ?perm ?X ?Y (Some 2) global
          = Inr ((map (nth ?X) train, map (nth ?X) test,
                  map (nth ?Y) train, map (nth ?Y) test), global)"
    by blast
  then have "length test = 1 \<and> length train = 4
        \<and> train_test_split ?RS ?perm ?X ?Y (Some 2) 8
          = Inr ((map (nth ?X) train, map (nth ?X) test,
                  map (nth ?Y) train, map (nth ?Y) test), 8)"
    by simp
  then show "\<exists>train test. length test = 1 \<and> length train = 4
        \<and> train_test_split ?RS ?perm ?X ?Y (Some 2) (8 :: nat)
          = Inr ((map (nth ?X) train, map (nth ?X) test,
                  map (nth ?Y) train, map (nth ?Y) test), 8)"
    by blast
qed

section \<open>Properties of the training pipeline and the evaluator\<close>

subsection \<open>The folds\<close>

lemma length_test_folds: "length (test_folds c sizes) = length sizes"
  by (induction sizes arbitrary: c) simp_all

lemma concat_test_folds: "concat (test_folds c sizes) = [c..<c + sum_list sizes]"
proof (induction sizes arbitrary: c)
  case Nil
  then show ?case by simp
next
  case (Cons s sizes)
  have "[c..<c + s] @ [c + s..<c + s + sum_list sizes] = [c..<c + s + sum_list sizes]"
    by (simp add: upt_add_eq_append [symmetric])
  with Cons show ?case by (simp add: add.assoc)
qed

lemma test_folds_ranges:
  "t \<in> set (test_folds c sizes) \<Longrightarrow> \<exists>a s. s \<in> set sizes \<and> t = [a..<a + s]"
proof (induction sizes arbitrary: c)
  case Nil
  then show ?case by simp
next
  case (Cons s sizes)
  from Cons.prems have "t = [c..<c + s] \<or> t \<in> set (test_folds (c + s) sizes)" by simp
  then show ?case
  proof
    assume "t = [c..<c + s]"
    then show ?thesis by auto
  next
    assume "t \<in> set (test_folds (c + s) sizes)"
    from Cons.IH [OF this] show ?thesis by auto
  qed
qed

lemma sum_list_indicator:
  "sum_list (map (\<lambda>i. if i < m then 1 else 0) [0..<k]) = min m k"
  by (induction k) auto

lemma sum_list_fold_sizes: "0 < k \<Longrightarrow> sum_list (fold_sizes n k) = n"
proof -
  assume k: "0 < k"
  have "sum_list (fold_sizes n k)
        = sum_list (map (\<lambda>i. n div k) [0..<k])
          + sum_list (map (\<lambda>i. if i < n mod k then 1 else 0) [0..<k])"
    unfolding fold_sizes_def by (simp add: sum_list_addf)
  also have "\<dots> = k * (n div k) + min (n mod k) k"
    by (simp add: sum_list_indicator sum_list_triv)
  also have "\<dots> = n" using k by (simp add: min_def)
  finally show ?thesis .
qed

lemma fold_size_bounds:
  "s \<in> set (fold_sizes n k) \<Longrightarrow> n div k \<le> s \<and> s \<le> n div k + 1"
  by (auto simp: fold_sizes_def)

lemma length_kfold: "length (kfold n k) = k"
  by (simp add: kfold_def length_test_folds fold_sizes_def)

lemma kfold_tests_cover: "0 < k \<Longrightarrow> concat (map snd (kfold n k)) = [0..<n]"
  by (simp add: kfold_def comp_def concat_test_folds sum_list_fold_sizes)

lemma kfold_nonempty:
  assumes "(train, test) \<in> set (kfold n 5)" and "5 \<le> n"
  shows "train = filter (\<lambda>i. i \<notin> set test) [0..<n] \<and> train \<noteq> [] \<and> test \<noteq> []"
proof -
  from assms(1) have tr: "train = filter (\<lambda>i. i \<notin> set test) [0..<n]"
    and "test \<in> set (test_folds 0 (fold_sizes n 5))"
    by (auto simp: kfold_def)
  then obtain a s where s: "s \<in> set (fold_sizes n 5)" and t: "test = [a..<a + s]"
    using test_folds_ranges by blast
  from fold_size_bounds [OF s] assms(2) have b: "1 \<le> s" "s < n" by linarith+
  have "test \<noteq> []" using b t by simp
  moreover have "train \<noteq> []"
  proof
    assume "train = []"
    then have "{0..<n} \<subseteq> {a..<a + s}" using tr t by (auto simp: filter_empty_conv)
    then have "card {0..<n} \<le> card {a..<a + s}" by (intro card_mono) simp_all
    with b show False by simp
  qed
  ultimately show ?thesis using tr by simp
qed

lemma kfold_10: "kfold 10 5 =
  [([2, 3, 4, 5, 6, 7, 8, 9], [0, 1]), ([0, 1, 4, 5, 6, 7, 8, 9], [2, 3]),
   ([0, 1, 2, 3, 6, 7, 8, 9], [4, 5]), ([0, 1, 2, 3, 4, 5, 8, 9], [6, 7]),
   ([0, 1, 2, 3, 4, 5, 6, 7], [8, 9])]"
  by (simp add: kfold_def fold_sizes_def upt_rec)


subsection \<open>The cross-validation loop\<close>

lemma fit_and_score_fresh:
  assumes "train \<noteq> []" and "test \<noteq> []"
  shows "\<exists>p. fit_and_score rf_fit rf_predict (h @ [Unfit]) (length h) X y train test
           = (fold_score rf_fit rf_predict X y train test, h @ [p])"
  using assms
  by (simp add: fit_and_score_def pipeline_fit_def fit_pipeline_def predict_pipeline_def
      fold_score_def Let_def)

lemma cv_loop_frame:
  assumes "\<forall>(train, test)\<in>set folds. train \<noteq> [] \<and> test \<noteq> []"
  shows "\<exists>h'. cv_loop rf_fit rf_predict h estimator X y folds
            = (map (\<lambda>(train, test). fold_score rf_fit rf_predict X y train test) folds, h')
          \<and> take (length h) h' = h"
  using assms
proof (induction folds arbitrary: h)
  case Nil
  then show ?case by simp
next
  case (Cons fold folds)
  obtain train test where fold: "fold = (train, test)" by (cases fold)
  with Cons.prems have ne: "train \<noteq> []" "test \<noteq> []"
    and rest: "\<forall>(train, test)\<in>set folds. train \<noteq> [] \<and> test \<noteq> []"
    by auto
  from fit_and_score_fresh [OF ne] obtain p where
    step: "fit_and_score rf_fit rf_predict (h @ [Unfit]) (length h) X y train test
           = (fold_score rf_fit rf_predict X y train test, h @ [p])"
    by blast
  from Cons.IH [OF rest, of "h @ [p]"] obtain h' where
    loop: "cv_loop rf_fit rf_predict (h @ [p]) estimator X y folds
            = (map (\<lambda>(train, test). fold_score rf_fit rf_predict X y train test) folds, h')"
    and frame: "take (length (h @ [p])) h' = h @ [p]"
    by blast
  have "take (length h) h' = take (length h) (take (length (h @ [p])) h')"
    by (simp add: min_def)
  also have "\<dots> = h" by (simp only: frame) simp
  finally have "take (length h) h' = h" .
  then show ?case
    by (simp add: fold clone_def step loop)
qed


lemma cross_val_score_result:
  assumes "length Y = length X" and "5 \<le> length X"
  shows "\<exists>h'. cross_val_score rf_fit rf_predict h estimator X Y 5
               = Inr (fold_scores rf_fit rf_predict X Y 5, h')
             \<and> take (length h) h' = h"
proof -
  have "\<forall>(train, test)\<in>set (kfold (length X) 5). train \<noteq> [] \<and> test \<noteq> []"
    using kfold_nonempty [OF _ assms(2)] by blast
  from cv_loop_frame [OF this, of rf_fit rf_predict h estimator X Y]
  show ?thesis using assms by (simp add: cross_val_score_def fold_scores_def)
qed


subsection \<open>The run of the cells\<close>

lemma collect_length: "collect rs = Inr xs \<Longrightarrow> length xs = length rs"
proof (induction rs arbitrary: xs)
  case Nil
  then show ?case by simp
next
  case (Cons r rs)
  then show ?case by (cases r) (auto split: sum.splits)
qed

lemma check_array_length: "check_array X = Inr M \<Longrightarrow> length M = length X"
  by (auto simp: check_array_def dest: collect_length)


lemma collect_all_Inr:
  assumes "\<forall>x\<in>set xs. f x = Inr (g x)"
  shows "collect (map f xs) = Inr (map g xs)"
  using assms by (induction xs) simp_all

lemma to_float_numeric: "\<not> (\<exists>s. c = CStr s) \<Longrightarrow> to_float c = Inr (cell_value c)"
  by (cases c) (simp_all add: to_float_def cell_value_def)

lemma feature_row_numeric:
  assumes "is_int (Gender r)"
  shows "collect (map to_float (feature_row r)) = Inr (map cell_value (feature_row r))"
proof (rule collect_all_Inr, rule ballI, rule to_float_numeric)
  fix c assume "c \<in> set (feature_row r)"
  with assms show "\<not> (\<exists>s. c = CStr s)"
    by (auto simp: feature_row_def is_int_def split: cell.splits)
qed

lemma check_array_numeric:
  assumes "\<forall>r\<in>set rows. is_int (Gender r)"
  shows "check_array (map feature_row rows) = Inr (map (\<lambda>r. map cell_value (feature_row r)) rows)"
  unfolding check_array_def map_map comp_def
  by (rule collect_all_Inr) (use assms feature_row_numeric in blast)

lemma training_cell_returns:
  assumes "length Y = length X" and "5 \<le> length X"
    and "X_fit \<noteq> []" and "length Y_fit = length X_fit"
  shows "\<exists>p h1. fit_pipeline rf_fit X_fit Y_fit = Inr p \<and> p \<noteq> Unfit
           \<and> length h < length h1
           \<and> training_cell rf_fit rf_predict h X Y X_fit Y_fit
               = Inr (fold_scores rf_fit rf_predict X Y 5,
                      nan_mean (fold_scores rf_fit rf_predict X Y 5), length h,
                      h1[length h := p])"
proof -
  from cross_val_score_result [OF assms(1,2), of rf_fit rf_predict "h @ [Unfit]" "length h"]
  obtain h1 where r: "cross_val_score rf_fit rf_predict (h @ [Unfit]) (length h) X Y 5
                = Inr (fold_scores rf_fit rf_predict X Y 5, h1)"
    and frame: "take (length (h @ [Unfit])) h1 = h @ [Unfit]"
    by blast
  have "length (take (length (h @ [Unfit])) h1) = length (h @ [Unfit])"
    by (simp only: frame)
  then have len: "length h < length h1" by simp
  obtain p where p: "fit_pipeline rf_fit X_fit Y_fit = Inr p" "p \<noteq> Unfit"
    using assms(3,4) by (simp add: fit_pipeline_def Let_def)
  have "training_cell rf_fit rf_predict h X Y X_fit Y_fit
               = Inr (fold_scores rf_fit rf_predict X Y 5,
                      nan_mean (fold_scores rf_fit rf_predict X Y 5), length h,
                      h1[length h := p])"
    by (simp add: training_cell_def Let_def r pipeline_fit_def p)
  with p len show ?thesis by blast
qed

lemma evaluation_cell_returns:
  assumes "h ! pipeline \<noteq> Unfit" and "X_test \<noteq> []" and "length Y_test = length X_test"
  shows "\<exists>m. evaluation_cell rf_predict h pipeline X_test Y_test = Inr m"
  using assms
  by (cases "h ! pipeline")
     (simp_all add: evaluation_cell_def predict_pipeline_def scaler_transform_def Let_def)

lemma modelling_cells_returns:
  assumes "\<forall>r\<in>set calories_data. is_int (Gender r)"
    and "5 \<le> length calories_data" and "length calories_data < 2 ^ 52"
    and "distinct (fst (permutation (RandomState 2) (length calories_data)))"
    and "set (fst (permutation (RandomState 2) (length calories_data)))
           = {0..<length calories_data}"
  shows "\<exists>X_full m h'.
           check_array (feature_matrix calories_data) = Inr X_full
         \<and> modelling_cells RandomState permutation rf_fit rf_predict global h calories_data
             = Inr (fold_scores rf_fit rf_predict X_full (target calories_data) 5,
                    nan_mean (fold_scores rf_fit rf_predict X_full (target calories_data) 5),
                    m, h', global)"
proof -
  define n where "n = length calories_data"
  define X where "X = feature_matrix calories_data"
  define Y where "Y = target calories_data"
  define num where "num = (\<lambda>r. map cell_value (feature_row r))"
  have lenX: "length X = n" and lenY: "length Y = length X"
    by (simp_all add: X_def Y_def n_def feature_matrix_def target_def)
  have n: "2 \<le> length X" "length X < 2 ^ 52" "5 \<le> n"
    using assms(2,3) by (simp_all add: lenX n_def)
  from train_test_split_result [of Y X permutation RandomState, OF lenY n(1,2)]
    assms(4,5)
  obtain train test where
    cover: "set (train @ test) = {0..<n}"
    and sizes: "length test = (n + 4) div 5" "length train = n - (n + 4) div 5"
    and split: "train_test_split RandomState permutation X Y (Some 2) global
               = Inr ((map (nth X) train, map (nth X) test,
                       map (nth Y) train, map (nth Y) test), global)"
    unfolding lenX n_def [symmetric] by blast
  have ne: "train \<noteq> []" "test \<noteq> []"
    using sizes n(3) by (auto simp: length_0_conv [symmetric] simp del: length_0_conv)
  have full: "check_array X = Inr (map num calories_data)"
    unfolding X_def feature_matrix_def num_def using assms(1) by (rule check_array_numeric)
  have rows: "map (nth X) idx = map feature_row (map (nth calories_data) idx)"
    if "set idx \<subseteq> {0..<n}" for idx
    using that by (auto simp: X_def feature_matrix_def n_def)
  have sub: "check_array (map (nth X) idx) = Inr (map num (map (nth calories_data) idx))"
    if "set idx \<subseteq> {0..<n}" for idx
    unfolding rows [OF that] num_def
    by (rule check_array_numeric) (use that assms(1) in \<open>auto simp: n_def\<close>)
  have tr: "set train \<subseteq> {0..<n}" and te: "set test \<subseteq> {0..<n}"
    using cover by auto
  define X_full where "X_full = map num calories_data"
  define X_fit where "X_fit = map num (map (nth calories_data) train)"
  define X_holdout where "X_holdout = map num (map (nth calories_data) test)"
  have lens: "length Y = length X_full" "5 \<le> length X_full"
    "X_fit \<noteq> []" "length (map (nth Y) train) = length X_fit"
    "X_holdout \<noteq> []" "length (map (nth Y) test) = length X_holdout"
    using n(3) ne by (simp_all add: X_full_def X_fit_def X_holdout_def lenY lenX n_def)
  have full': "check_array X = Inr X_full" using full by (simp add: X_full_def)
  have subtr: "check_array (map (nth X) train) = Inr X_fit"
    using sub [OF tr] by (simp add: X_fit_def)
  have subte: "check_array (map (nth X) test) = Inr X_holdout"
    using sub [OF te] by (simp add: X_holdout_def)
  from training_cell_returns [OF lens(1,2,3,4), of rf_fit h rf_predict]
  obtain p h1 where p: "p \<noteq> Unfit" "length h < length h1"
    and cell: "training_cell rf_fit rf_predict h X_full Y X_fit (map (nth Y) train)
               = Inr (fold_scores rf_fit rf_predict X_full Y 5,
                      nan_mean (fold_scores rf_fit rf_predict X_full Y 5), length h,
                      h1[length h := p])"
    by blast
  have "h1[length h := p] ! length h \<noteq> Unfit" using p by simp
  from evaluation_cell_returns [OF this lens(5,6), of rf_predict]
  obtain m where ev: "evaluation_cell rf_predict (h1[length h := p]) (length h) X_holdout
                        (map (nth Y) test) = Inr m"
    by blast
  have "modelling_cells RandomState permutation rf_fit rf_predict global h calories_data
             = Inr (fold_scores rf_fit rf_predict X_full Y 5,
                    nan_mean (fold_scores rf_fit rf_predict X_full Y 5),
                    m, h1[length h := p], global)"
    unfolding modelling_cells_def Let_def X_def [symmetric] Y_def [symmetric]
    by (simp add: split full' subtr subte cell ev)
  moreover have "check_array (feature_matrix calories_data) = Inr X_full"
    using full' by (simp add: X_def)
  ultimately show ?thesis unfolding Y_def by blast
qed

text \<open>
  C7. For a table of at least five rows whose gender entries are all numbers, the cells
  run through, and cross-validation works on the full \<open>X, Y\<close> of the table, not on
  the training part: the five test folds are consecutive index ranges that together cover
  every row once, each training set is the rest of the rows (the other four folds), and
  each score is the coefficient of determination, on the held-out fold, of a fresh
  pipeline trained on the training set only. The cell reports these five scores and their
  mean. A call of \<open>cross_val_score\<close> leaves every object that was in the heap before
  the call, the estimator it was given included, as it was.
\<close>

theorem cross_validation_diagnostic:
  fixes rf_fit :: "real list list \<Rightarrow> real list \<Rightarrow> 'm"
  assumes "\<forall>r\<in>set calories_data. is_int (Gender r)"
    and "5 \<le> length calories_data" and "length calories_data < 2 ^ 52"
    and "distinct (fst (permutation (RandomState 2) (length calories_data)))"
    and "set (fst (permutation (RandomState 2) (length calories_data)))
           = {0..<length calories_data}"
  shows "\<exists>X scores.
       check_array (feature_matrix calories_data) = Inr X
     \<and> length X = length calories_data
     \<and> scores = fold_scores rf_fit rf_predict X (target calories_data) 5
     \<and> length scores = 5
     \<and> (\<exists>m h'. modelling_cells RandomState permutation rf_fit rf_predict global h
                   calories_data
                 = Inr (scores, nan_mean scores, m, h', global))
     \<and> (list_all (\<lambda>s. s \<noteq> None) scores
          \<longrightarrow> nan_mean scores = Some (sum_list (map the scores) / 5))
     \<and> concat (map snd (kfold (length X) 5)) = [0..<length X]
     \<and> (\<forall>(train, test)\<in>set (kfold (length X) 5).
           train = filter (\<lambda>i. i \<notin> set test) [0..<length X] \<and> train \<noteq> [] \<and> test \<noteq> [])
     \<and> (\<forall>h0 estimator. estimator < length h0 \<longrightarrow>
           (\<exists>h1. cross_val_score rf_fit rf_predict h0 estimator X (target calories_data) 5
                   = Inr (scores, h1)
                 \<and> take (length h0) h1 = h0 \<and> h1 ! estimator = h0 ! estimator))"
proof -
  from modelling_cells_returns [where calories_data = calories_data
      and permutation = permutation and RandomState = RandomState and rf_fit = rf_fit
      and rf_predict = rf_predict and global = global and h = h, OF assms]
  obtain X m h' where
    X: "check_array (feature_matrix calories_data) = Inr X"
    and run: "modelling_cells RandomState permutation rf_fit rf_predict global h calories_data
             = Inr (fold_scores rf_fit rf_predict X (target calories_data) 5,
                    nan_mean (fold_scores rf_fit rf_predict X (target calories_data) 5),
                    m, h', global)"
    by blast
  define scores where "scores = fold_scores rf_fit rf_predict X (target calories_data) 5"
  have len: "length X = length calories_data"
    using check_array_length [OF X] by (simp add: feature_matrix_def)
  have lenY: "length (target calories_data) = length X"
    by (simp add: len target_def)
  have five: "5 \<le> length X" using assms(2) by (simp add: len)
  have l5: "length scores = 5"
    by (simp add: scores_def fold_scores_def length_kfold)
  have mean: "list_all (\<lambda>s. s \<noteq> None) scores
          \<longrightarrow> nan_mean scores = Some (sum_list (map the scores) / 5)"
    by (simp add: nan_mean_def np_mean_def l5)
  have cover: "concat (map snd (kfold (length X) 5)) = [0..<length X]"
    by (rule kfold_tests_cover) simp
  have folds: "\<forall>(train, test)\<in>set (kfold (length X) 5).
           train = filter (\<lambda>i. i \<notin> set test) [0..<length X] \<and> train \<noteq> [] \<and> test \<noteq> []"
    using kfold_nonempty [OF _ five] by blast
  have frame: "\<forall>h0 estimator. estimator < length h0 \<longrightarrow>
           (\<exists>h1. cross_val_score rf_fit rf_predict h0 estimator X (target calories_data) 5
                   = Inr (scores, h1)
                 \<and> take (length h0) h1 = h0 \<and> h1 ! estimator = h0 ! estimator)"
  proof (intro allI impI)
    fix h0 :: "'m heap" and estimator
    assume e: "estimator < length h0"
    from cross_val_score_result [OF lenY five, of rf_fit rf_predict h0 estimator]
    obtain h1 where r: "cross_val_score rf_fit rf_predict h0 estimator X (target calories_data) 5
                = Inr (scores, h1)"
      and fr: "take (length h0) h1 = h0"
      unfolding scores_def by blast
    have "h1 ! estimator = take (length h0) h1 ! estimator" using e by simp
    then have "h1 ! estimator = h0 ! estimator" by (simp only: fr)
    with r fr show "\<exists>h1. cross_val_score rf_fit rf_predict h0 estimator X
                   (target calories_data) 5 = Inr (scores, h1)
                 \<and> take (length h0) h1 = h0 \<and> h1 ! estimator = h0 ! estimator"
      by blast
  qed
  have run': "\<exists>m h'. modelling_cells RandomState permutation rf_fit rf_predict global h
                   calories_data = Inr (scores, nan_mean scores, m, h', global)"
    using run unfolding scores_def by blast
  show ?thesis
    using X len scores_def l5 run' mean cover folds frame by blast
qed

theorem cross_validation_diagnostic_witness:
  "\<exists>m h'. notebook (\<lambda>seed. seed) (\<lambda>s n. (rev [0..<n], Suc s)) (\<lambda>X y. np_mean y)
             (\<lambda>m row. m) True (7 :: nat) [] ten_sessions
          = Inr ([Some (- 100), Some (- 25), Some 0, Some (- 25), Some (- 100)],
                 Some (- 50), m, h', 7)"
proof -
  let ?data = "feature_engineer ten_sessions"
  let ?RS = "\<lambda>seed :: nat. seed"
  let ?perm = "\<lambda>(s :: nat) n. (rev [0..<n], Suc s)"
  let ?fit = "\<lambda>(X :: real list list) y. np_mean y"
  let ?predict = "\<lambda>(m :: real) (row :: real list). m"
  have len: "length ?data = 10" by (simp add: feature_engineer_def ten_sessions_def)
  have h1: "\<forall>r\<in>set ?data. is_int (Gender r)"
    by (simp add: feature_engineer_def ten_sessions_def derive_session_a derive_session_b
        is_int_def)
  have h2: "5 \<le> length ?data" and h3: "length ?data < 2 ^ 52"
    by (simp_all add: len)
  have h4: "distinct (fst (?perm (?RS 2) (length ?data)))" by simp
  have h5: "set (fst (?perm (?RS 2) (length ?data))) = {0..<length ?data}"
    by (simp only: fst_conv set_rev set_upt)
  have Y: "target ?data = [10, 20, 30, 40, 50, 60, 70, 80, 90, 100]"
    by (simp add: target_def feature_engineer_def ten_sessions_def derive_session_a
        derive_session_b)
  from cross_validation_diagnostic [where calories_data = ?data and RandomState = ?RS
      and permutation = ?perm and rf_fit = ?fit and rf_predict = ?predict and global = 7
      and h = "[]", OF h1 h2 h3 h4 h5]
  obtain X scores m h' where
    X: "length X = length ?data"
    and scores: "scores = fold_scores ?fit ?predict X (target ?data) 5"
    and run: "modelling_cells ?RS ?perm ?fit ?predict 7 [] ?data
                 = Inr (scores, nan_mean scores, m, h', 7)"
    by blast
  have "scores = [Some (- 100), Some (- 25), Some 0, Some (- 25), Some (- 100)]"
    unfolding scores fold_scores_def X len kfold_10 Y
    by (simp add: fold_score_def Let_def r2_score_def np_mean_def scaler_transform_def
        power2_eq_square)
  moreover from this have "nan_mean scores = Some (- 50)"
    by (simp add: nan_mean_def np_mean_def)
  ultimately have "modelling_cells ?RS ?perm ?fit ?predict 7 [] ?data
      = Inr ([Some (- 100), Some (- 25), Some 0, Some (- 25), Some (- 100)],
             Some (- 50), m, h', 7)"
    using run by simp
  then show ?thesis
    unfolding notebook_def ten_sessions_pass by blast
qed

subsection \<open>The evaluator\<close>

lemma tss_nonzero_length:
  assumes "sum_list (map (\<lambda>t. (t - np_mean ys) ^ 2) ys) \<noteq> 0"
  shows "2 \<le> length ys"
proof (rule ccontr)
  assume "\<not> 2 \<le> length ys"
  then have "ys = [] \<or> (\<exists>v. ys = [v])"
    by (cases ys) (auto simp: not_le)
  then show False using assms by (auto simp: np_mean_def)
qed

text \<open>
  C8. After \<open>pipeline.fit(X_train, Y_train)\<close> the evaluator predicts each holdout row by
  standardising it with the mean and scale of the training matrix (nothing is taken from
  the holdout set) and asking the trained forest; it returns the mean absolute error, the
  mean squared error, the square root of the latter, and, the total sum of squares of the
  holdout labels being non-zero, the coefficient of determination as 1 minus the residual
  sum of squares over the total sum of squares.
\<close>

theorem evaluator_metrics:
  assumes "pipeline_fit rf_fit h pipeline X_train Y_train = Inr h'"
    and "pipeline < length h"
    and "X_test \<noteq> []" and "length Y_test = length X_test"
    and "sum_list (map (\<lambda>t. (t - np_mean Y_test) ^ 2) Y_test) \<noteq> 0"
  shows "\<exists>y_pred.
      y_pred = map (\<lambda>row. rf_predict
                     (rf_fit (scaler_transform (map np_mean (columns X_train))
                                (map (\<lambda>c. handle_zeros_in_scale (np_std c)) (columns X_train))
                                X_train) Y_train)
                     (map (\<lambda>(x, m, s). (x - m) / s)
                        (zip row (zip (map np_mean (columns X_train))
                           (map (\<lambda>c. handle_zeros_in_scale (np_std c)) (columns X_train))))))
                 X_test
    \<and> evaluation_cell rf_predict h' pipeline X_test Y_test
        = Inr \<lparr> predictions = y_pred,
                mae = sum_list (map (\<lambda>(t, p). \<bar>t - p\<bar>) (zip Y_test y_pred)) / real (length Y_test),
                mse = sum_list (map (\<lambda>(t, p). (t - p) ^ 2) (zip Y_test y_pred))
                        / real (length Y_test),
                rmse = sqrt (sum_list (map (\<lambda>(t, p). (t - p) ^ 2) (zip Y_test y_pred))
                        / real (length Y_test)),
                r2 = Some (1 - sum_list (map (\<lambda>(t, p). (t - p) ^ 2) (zip Y_test y_pred))
                              / sum_list (map (\<lambda>t. (t - np_mean Y_test) ^ 2) Y_test)) \<rparr>"
proof -
  define means where "means = map np_mean (columns X_train)"
  define scales where "scales = map (\<lambda>c. handle_zeros_in_scale (np_std c)) (columns X_train)"
  define model where "model = rf_fit (scaler_transform means scales X_train) Y_train"
  have h': "h' ! pipeline = Fit means scales model"
    using assms(1,2)
    by (auto simp: pipeline_fit_def fit_pipeline_def Let_def means_def scales_def model_def
        split: if_splits)
  have two: "2 \<le> length Y_test" using assms(5) by (rule tss_nonzero_length)
  have abs: "(\<lambda>(t, p). \<bar>p - t\<bar>) = (\<lambda>(t :: real, p). \<bar>t - p\<bar>)"
    by (simp add: fun_eq_iff abs_minus_commute)
  show ?thesis
    unfolding means_def [symmetric] scales_def [symmetric] model_def [symmetric]
    using assms(3,4,5) two
    by (simp add: evaluation_cell_def h' predict_pipeline_def scaler_transform_def
        mean_absolute_error_def mean_squared_error_def r2_score_def np_mean_def Let_def abs
        comp_def)
qed

theorem evaluator_metrics_witness:
  "evaluation_cell (\<lambda>m row. m + sum_list row) [Fit [2] [1] 15] 0 [[1], [5]] [12, 30]
     = Inr \<lparr> predictions = [14, 18], mae = 7, mse = 74, rmse = sqrt 74, r2 = Some (7 / 81) \<rparr>"
proof -
  let ?fit = "\<lambda>(X :: real list list) y. np_mean y"
  let ?predict = "\<lambda>(m :: real) (row :: real list). m + sum_list row"
  have v: "np_var [1, 3] = 1" by (simp add: np_var_def np_mean_def)
  have h1: "pipeline_fit ?fit [Unfit] 0 [[1], [3]] [10, 20] = Inr [Fit [2] [1] 15]"
    by (simp add: pipeline_fit_def fit_pipeline_def Let_def columns_def np_mean_def
        np_std_def v handle_zeros_in_scale_def)
  have h2: "0 < length [Unfit :: real pipeline]" by simp
  have h3: "[[1], [5 :: real]] \<noteq> []" by simp
  have h4: "length [12, 30 :: real] = length [[1], [5 :: real]]" by simp
  have h5: "sum_list (map (\<lambda>t. (t - np_mean [12, 30]) ^ 2) [12, 30]) \<noteq> 0"
    by (simp add: np_mean_def)
  from evaluator_metrics [of ?fit "[Unfit]" 0 "[[1], [3]]" "[10, 20]" "[Fit [2] [1] 15]"
      "[[1], [5]]" "[12, 30]" ?predict, OF h1 h2 h3 h4 h5]
  show ?thesis
    by (simp add: columns_def np_mean_def np_std_def v handle_zeros_in_scale_def
        scaler_transform_def power2_eq_square)
qed

end
